theory Spec2Isabelle
  imports Complex_Main "HOL-Library.Sublist" "HOL-Library.Multiset"
begin

section \<open>Data model of the modular assistant (types.ts)\<close>

text \<open>
  Strings are lists of 8-bit characters: a JavaScript string all of whose code units are
  below 256. The few characters of the sources beyond that range (in mock post bodies)
  are written as their UTF-8 bytes. Numbers that the code only ever fills with integers
  are \<open>int\<close>; a \<open>Date\<close> is its \<open>getTime()\<close> value in milliseconds.
\<close>

datatype Role = User | Assistant | System | Agent

record Message =
  role :: Role
  content :: string
  agentName :: "string option"

record FeatureRequest =
  title :: string
  description :: string
  userGoal :: string
  exampleUseCase :: string
  timestamp :: int

record ResearchResult =
  question :: string
  answer :: string
  sources :: "string list"

text \<open>\<open>RedditPost\<close> of types.ts, the post of a summary.\<close>

record SummaryPost =
  sp_title :: string
  sp_url :: string
  sp_upvotes :: int
  sp_commentCount :: int
  sp_summary :: string

record RedditSummary =
  topic :: string
  sentiment :: string
  mainTopics :: "string list"
  topPosts :: "SummaryPost list"

record AgentState =
  currentAgent :: string
  taskCompleted :: bool
  featureRequests :: "FeatureRequest list"
  researchResults :: "ResearchResult option"
  redditSummary :: "RedditSummary option"

record GraphState =
  messages :: "Message list"
  agentState :: AgentState

section \<open>The router and the routing table (buildAgentGraph)\<close>

datatype Node = PersonalAssistant | FeatureRequestAgent | DeepResearchAgent | GmeRedditSummaryAgent

datatype Target = END | To Node

definition router :: "GraphState \<Rightarrow> string" where
  "router state =
     (if taskCompleted (agentState state) then ''PersonalAssistant''
      else currentAgent (agentState state))"

text \<open>
  The path map of \<open>addConditionalEdges("PersonalAssistant", router, {...})\<close>: a key the
  map does not hold has no destination.
\<close>

definition conditionalEdges :: "string \<Rightarrow> Target option" where
  "conditionalEdges =
     map_of
       [(''PersonalAssistant'', END),
        (''FeatureRequestAgent'', To FeatureRequestAgent),
        (''DeepResearchAgent'', To DeepResearchAgent),
        (''GmeRedditSummaryAgent'', To GmeRedditSummaryAgent)]"

text \<open>The identifier a node is added under.\<close>

definition nodeName :: "Node \<Rightarrow> string" where
  "nodeName node =
     (case node of
        PersonalAssistant \<Rightarrow> ''PersonalAssistant''
      | FeatureRequestAgent \<Rightarrow> ''FeatureRequestAgent''
      | DeepResearchAgent \<Rightarrow> ''DeepResearchAgent''
      | GmeRedditSummaryAgent \<Rightarrow> ''GmeRedditSummaryAgent'')"

text \<open>\<open>createInitialState\<close> of utils/helpers.\<close>

definition createInitialState :: GraphState where
  "createInitialState =
     \<lparr>messages =
        [\<lparr>role = System,
          content = ''You are a helpful personal assistant that can handle various tasks through specialized agents.'',
          agentName = None\<rparr>],
      agentState =
        \<lparr>currentAgent = ''PersonalAssistant'', taskCompleted = False, featureRequests = [],
         researchResults = None, redditSummary = None\<rparr>\<rparr>"

section \<open>JavaScript string operations used by the sources\<close>

definition isSpace :: "char \<Rightarrow> bool" where
  "isSpace c = (c \<in> set [CHR 0x09, CHR 0x0A, CHR 0x0B, CHR 0x0C, CHR 0x0D, CHR 0x20, CHR 0xA0])"

definition isWordChar :: "char \<Rightarrow> bool" where
  "isWordChar c = (c \<in> set ''abcdefghijklmnopqrstuvwxyzABCDEFGHIJKLMNOPQRSTUVWXYZ0123456789_'')"

definition isDigit :: "char \<Rightarrow> bool" where
  "isDigit c = (c \<in> set ''0123456789'')"

definition upperChars :: string where
  "upperChars = ''ABCDEFGHIJKLMNOPQRSTUVWXYZ'' @
     [CHR 0xC0, CHR 0xC1, CHR 0xC2, CHR 0xC3, CHR 0xC4, CHR 0xC5, CHR 0xC6, CHR 0xC7, CHR 0xC8, CHR 0xC9, CHR 0xCA, CHR 0xCB, CHR 0xCC, CHR 0xCD, CHR 0xCE, CHR 0xCF, CHR 0xD0, CHR 0xD1, CHR 0xD2, CHR 0xD3, CHR 0xD4, CHR 0xD5, CHR 0xD6, CHR 0xD8, CHR 0xD9, CHR 0xDA, CHR 0xDB, CHR 0xDC, CHR 0xDD, CHR 0xDE]"

definition lowerChars :: string where
  "lowerChars = ''abcdefghijklmnopqrstuvwxyz'' @
     [CHR 0xE0, CHR 0xE1, CHR 0xE2, CHR 0xE3, CHR 0xE4, CHR 0xE5, CHR 0xE6, CHR 0xE7, CHR 0xE8, CHR 0xE9, CHR 0xEA, CHR 0xEB, CHR 0xEC, CHR 0xED, CHR 0xEE, CHR 0xEF, CHR 0xF0, CHR 0xF1, CHR 0xF2, CHR 0xF3, CHR 0xF4, CHR 0xF5, CHR 0xF6, CHR 0xF8, CHR 0xF9, CHR 0xFA, CHR 0xFB, CHR 0xFC, CHR 0xFD, CHR 0xFE]"

definition toLowerChar :: "char \<Rightarrow> char" where
  "toLowerChar c = (case map_of (zip upperChars lowerChars) c of Some l \<Rightarrow> l | None \<Rightarrow> c)"

definition toLowerCase :: "string \<Rightarrow> string" where
  "toLowerCase s = map toLowerChar s"

definition trim :: "string \<Rightarrow> string" where
  "trim s = rev (dropWhile isSpace (rev (dropWhile isSpace s)))"

fun includesStr :: "string \<Rightarrow> string \<Rightarrow> bool" where
  "includesStr [] p = (p = [])"
| "includesStr (c # cs) p = (prefix p (c # cs) \<or> includesStr cs p)"

fun splitWs :: "string \<Rightarrow> string list" where
  "splitWs [] = [[]]"
| "splitWs (c # cs) =
     (if isSpace c then (if cs \<noteq> [] \<and> isSpace (hd cs) then splitWs cs else [] # splitWs cs)
      else (case splitWs cs of [] \<Rightarrow> [[c]] | w # ws \<Rightarrow> (c # w) # ws))"

fun splitOn :: "char \<Rightarrow> string \<Rightarrow> string list" where
  "splitOn d [] = [[]]"
| "splitOn d (c # cs) =
     (if c = d then [] # splitOn d cs
      else (case splitOn d cs of [] \<Rightarrow> [[c]] | w # ws \<Rightarrow> (c # w) # ws))"

fun joinWith :: "string \<Rightarrow> string list \<Rightarrow> string" where
  "joinWith sep [] = []"
| "joinWith sep [x] = x"
| "joinWith sep (x # y # ys) = x @ sep @ joinWith sep (y # ys)"

definition digitChar :: "nat \<Rightarrow> char" where
  "digitChar d = ''0123456789'' ! d"

fun showNat :: "nat \<Rightarrow> string" where
  "showNat n = (if n < 10 then [digitChar n] else showNat (n div 10) @ [digitChar (n mod 10)])"

definition showInt :: "int \<Rightarrow> string" where
  "showInt i = (if i < 0 then CHR ''-'' # showNat (nat (- i)) else showNat (nat i))"

text \<open>
  \<open>Array.prototype.sort\<close> with a consistent comparator (one that orders its arguments
  by a number each): the order is that of the stable sort, an element goes before the
  first element it does not compare greater than.
\<close>

fun insertBy :: "('a \<Rightarrow> 'a \<Rightarrow> int) \<Rightarrow> 'a \<Rightarrow> 'a list \<Rightarrow> 'a list" where
  "insertBy cmp x [] = [x]"
| "insertBy cmp x (y # ys) = (if cmp x y \<le> 0 then x # y # ys else y # insertBy cmp x ys)"

definition sortBy :: "('a \<Rightarrow> 'a \<Rightarrow> int) \<Rightarrow> 'a list \<Rightarrow> 'a list" where
  "sortBy cmp xs = foldr (insertBy cmp) xs []"

text \<open>
  With a comparator that is not consistent the order is the engine's own. This is the
  sort of the V8 engine on fewer than 64 elements: the longest run at the front that is
  non-descending, or strictly descending and then reversed, is kept, and every later
  element is put in by binary search, after the elements it does not compare less than.
  From 64 elements on the engine sorts runs this way and merges them, which under a
  consistent comparator gives the same order; so this is the engine's order on fewer
  than 64 elements for every comparator, and on more for a consistent one.
\<close>

fun runLength :: "('a \<Rightarrow> 'a \<Rightarrow> int) \<Rightarrow> bool \<Rightarrow> 'a \<Rightarrow> 'a list \<Rightarrow> nat" where
  "runLength cmp descending previous [] = 0"
| "runLength cmp descending previous (x # xs) =
     (if (if descending then cmp x previous < 0 else cmp x previous \<ge> 0)
      then Suc (runLength cmp descending x xs) else 0)"

function searchPosition :: "('a \<Rightarrow> 'a \<Rightarrow> int) \<Rightarrow> 'a \<Rightarrow> 'a list \<Rightarrow> nat" where
  "searchPosition cmp pivot ys =
     (if ys = [] then 0
      else let mid = length ys div 2
           in if cmp pivot (ys ! mid) < 0 then searchPosition cmp pivot (take mid ys)
              else mid + 1 + searchPosition cmp pivot (drop (mid + 1) ys))"
  by pat_completeness auto
termination
  by (relation "measure (\<lambda>(cmp, pivot, ys). length ys)") auto

definition binaryInsert :: "('a \<Rightarrow> 'a \<Rightarrow> int) \<Rightarrow> 'a list \<Rightarrow> 'a \<Rightarrow> 'a list" where
  "binaryInsert cmp ys pivot =
     (let left = searchPosition cmp pivot ys in take left ys @ [pivot] @ drop left ys)"

fun engineSort :: "('a \<Rightarrow> 'a \<Rightarrow> int) \<Rightarrow> 'a list \<Rightarrow> 'a list" where
  "engineSort cmp [] = []"
| "engineSort cmp [x] = [x]"
| "engineSort cmp (x0 # x1 # xs) =
     (let descending = cmp x1 x0 < 0;
          n = 2 + runLength cmp descending x1 xs;
          run = take n (x0 # x1 # xs)
      in foldl (binaryInsert cmp) (if descending then rev run else run)
           (drop n (x0 # x1 # xs)))"

section \<open>The feature-request queue (tools/featureRequestQueue.ts)\<close>

text \<open>The module variable \<open>featureRequests\<close> is passed in and handed back.\<close>

type_synonym Queue = "FeatureRequest list"

definition addFeatureRequest :: "FeatureRequest \<Rightarrow> Queue \<Rightarrow> FeatureRequest \<times> Queue" where
  "addFeatureRequest request q = (request, q @ [request])"

definition getAllFeatureRequests :: "Queue \<Rightarrow> FeatureRequest list" where
  "getAllFeatureRequests q = q"

definition slice0 :: "int \<Rightarrow> 'a list \<Rightarrow> 'a list" where
  "slice0 e xs = (if e < 0 then take (nat (int (length xs) + e)) xs else take (nat e) xs)"

definition byNewest :: "FeatureRequest \<Rightarrow> FeatureRequest \<Rightarrow> int" where
  "byNewest a b = timestamp b - timestamp a"

definition getRecentFeatureRequests :: "int option \<Rightarrow> Queue \<Rightarrow> FeatureRequest list" where
  "getRecentFeatureRequests cnt q =
     slice0 (case cnt of None \<Rightarrow> 5 | Some c \<Rightarrow> c) (sortBy byNewest q)"

definition clearFeatureRequests :: "Queue \<Rightarrow> Queue" where
  "clearFeatureRequests q = []"

definition appendAll :: "FeatureRequest list \<Rightarrow> Queue \<Rightarrow> Queue" where
  "appendAll rs q = fold (\<lambda>r q. snd (addFeatureRequest r q)) rs q"

definition newestFirst :: "FeatureRequest list \<Rightarrow> bool" where
  "newestFirst xs = sorted_wrt (\<lambda>a b. timestamp b \<le> timestamp a) xs"

section \<open>The research lookup (tools/researchTools.ts)\<close>

definition knowledgeBase :: "string \<Rightarrow> string list option" where
  "knowledgeBase =
     map_of
       [(''blockchain'',
         [''Blockchain is a distributed ledger technology that enables secure transactions without a central authority.'',
          ''The first blockchain was created as the underlying technology for Bitcoin by Satoshi Nakamoto in 2008.'',
          ''Smart contracts are self-executing contracts with the terms directly written into code on blockchain platforms like Ethereum.'']),
        (''machine learning'',
         [''Machine learning is a subset of artificial intelligence that focuses on developing systems that learn from data.'',
          ''Supervised learning involves training models on labeled data, while unsupervised learning works with unlabeled data.'',
          ''Deep learning uses neural networks with many layers to process complex patterns in large amounts of data.'']),
        (''climate change'',
         [''Climate change refers to long-term shifts in temperatures and weather patterns, primarily caused by human activities.'',
          ''The burning of fossil fuels is a major contributor to greenhouse gas emissions.'',
          ''Effects include rising sea levels, increased frequency of extreme weather events, and disruption of ecosystems.''])]"

definition stopWords :: "string list" where
  "stopWords =
     [''the'', ''a'', ''an'', ''and'', ''in'', ''on'', ''at'', ''of'', ''to'', ''for'', ''with'', ''is'',
      ''are'', ''what'', ''why'', ''how'', ''when'', ''where'', ''who'']"

definition importantPhrases :: "string list" where
  "importantPhrases =
     [''machine learning'', ''artificial intelligence'', ''blockchain'', ''climate change'',
      ''quantum computing'']"

text \<open>\<open>question.toLowerCase().replace(/[^\w\s]/g, '')\<close>.\<close>

definition cleanQuestion :: "string \<Rightarrow> string" where
  "cleanQuestion query = filter (\<lambda>c. isWordChar c \<or> isSpace c) (toLowerCase query)"

text \<open>
  The object \<open>wordFrequency\<close> and \<open>Object.entries\<close> of it. The value stored under a word
  is its number of occurrences, with the two words that name a property every object
  inherits apart: \<open>__proto__\<close> is never stored (the assignment of a string to it is
  dropped), and under \<open>constructor\<close> the code stores a string that is not a number.
  \<open>Object.entries\<close> lists the keys that are array indices first, in ascending numeric
  order, then the other keys in the order of their first insertion.
\<close>

datatype Count = Num nat | NotANumber

definition digitValue :: "char \<Rightarrow> nat" where
  "digitValue c = length (takeWhile (\<lambda>d. d \<noteq> c) ''0123456789'')"

definition decValue :: "string \<Rightarrow> int" where
  "decValue w = foldl (\<lambda>n c. 10 * n + int (digitValue c)) 0 w"

definition isArrayIndex :: "string \<Rightarrow> bool" where
  "isArrayIndex w =
     (w \<noteq> [] \<and> list_all isDigit w \<and> (hd w \<noteq> CHR ''0'' \<or> w = ''0'') \<and> decValue w < 4294967295)"

definition firstOccurrences :: "string list \<Rightarrow> string list" where
  "firstOccurrences ws = rev (remdups (rev ws))"

definition objectEntries :: "string list \<Rightarrow> (string \<times> Count) list" where
  "objectEntries ws =
     (let keys = firstOccurrences (filter (\<lambda>w. w \<noteq> ''__proto__'') ws);
          indices = sort_key decValue (filter isArrayIndex keys);
          names = filter (\<lambda>k. \<not> isArrayIndex k) keys
      in map (\<lambda>k. (k, if k = ''constructor'' then NotANumber else Num (count_list ws k)))
           (indices @ names))"

text \<open>
  \<open>(a, b) => b[1] - a[1]\<close>; a difference that is NaN counts as 0 in a sort. With the
  word \<open>constructor\<close> among the keys this comparator is not consistent.
\<close>

definition byFrequency :: "string \<times> Count \<Rightarrow> string \<times> Count \<Rightarrow> int" where
  "byFrequency a b =
     (case (snd b, snd a) of (Num m, Num n) \<Rightarrow> int m - int n | _ \<Rightarrow> 0)"

definition extractKeywords :: "string \<Rightarrow> string list" where
  "extractKeywords query =
     (let cleaned = cleanQuestion query;
          words = splitWs cleaned;
          filteredWords = filter (\<lambda>word. word \<notin> set stopWords \<and> length word > 2) words
      in case find (\<lambda>phrase. includesStr cleaned phrase) importantPhrases of
           Some phrase \<Rightarrow> [phrase]
         | None \<Rightarrow> map fst (take 3 (engineSort byFrequency (objectEntries filteredWords))))"

definition knowledgeSnippets :: "string \<Rightarrow> string list" where
  "knowledgeSnippets keyword =
     (case knowledgeBase (toLowerCase keyword) of
        None \<Rightarrow> []
      | Some knowledgeEntries \<Rightarrow> map (\<lambda>entry. ''[Internal Knowledge Base] '' @ entry) knowledgeEntries)"

definition externalPair :: "string \<Rightarrow> string list" where
  "externalPair keyword =
     [''[External API] Based on recent research, the topic of '' @ keyword @
        '' has seen significant developments in the past year.'',
      ''[External API] Experts in '' @ keyword @
        '' suggest that continued research is necessary to fully understand its implications.'']"

definition genericPair :: "string list" where
  "genericPair =
     [''[Research] The research question appears to be outside our current knowledge domain.'',
      ''[Research] Consider refining the question or exploring more specific aspects of the topic.'']"

text \<open>
  Nothing in the \<open>try\<close> of \<open>performResearch\<close> throws, so its \<open>catch\<close> is not a branch
  here. The three steps push onto \<open>results\<close> in turn.
\<close>

definition performResearch :: "string \<Rightarrow> string list" where
  "performResearch query =
     (let keywords = extractKeywords query;
          results1 = concat (map knowledgeSnippets keywords);
          results2 = (if length keywords > 0 \<and> length results1 = 0
                      then results1 @ externalPair (hd keywords) else results1);
          results3 = (if length results2 = 0 then results2 @ genericPair else results2)
      in results3)"

section \<open>The social-feed fetch (tools/redditApi.ts)\<close>

text \<open>
  \<open>RedditPost\<close> of redditApi.ts. \<open>clock k\<close> is what the \<open>k\<close>-th evaluation of
  \<open>Date.now()\<close> in one call returns, in milliseconds; \<open>created_utc\<close> is the exact
  quotient, without the rounding of a double.
\<close>

record RedditPost =
  post_title :: string
  url :: string
  permalink :: string
  author :: string
  created_utc :: rat
  upvotes :: int
  commentCount :: int
  selftext :: string

definition mockPosts :: "(nat \<Rightarrow> int) \<Rightarrow> RedditPost list" where
  "mockPosts clock =
       [\<lparr>post_title = ''GME Q1 Earnings Beat Expectations, Stock Up 8% in After Hours'',
         url = ''https://reddit.com/r/wallstreetbets/mock1'',
         permalink = ''/r/wallstreetbets/comments/mock1'',
         author = ''DiamondHands42069'',
         created_utc = of_int (clock 0) / 1000 - 3600 * 5,
         upvotes = 4281,
         commentCount = 732,
         selftext = ''GameStop just reported Q1 earnings with revenue of $1.38B vs $1.25B expected. EPS was $0.15 vs $0.02 expected. Their e-commerce sales are up 42% YoY. Looks like the turnaround is real! '' @ [CHR 0xC3, CHR 0xB0] @ [CHR 0xC5, CHR 0xB8] @ [CHR 0xC5, CHR 0xA1] @ [CHR 0xE2, CHR 0x82, CHR 0xAC] @ [CHR 0xC3, CHR 0xB0] @ [CHR 0xC5, CHR 0xB8] @ [CHR 0xC5, CHR 0xA1] @ [CHR 0xE2, CHR 0x82, CHR 0xAC] @ [CHR 0xC3, CHR 0xB0] @ [CHR 0xC5, CHR 0xB8] @ [CHR 0xC5, CHR 0xA1] @ [CHR 0xE2, CHR 0x82, CHR 0xAC]\<rparr>,
        \<lparr>post_title = ''DD: GME's NFT Marketplace Strategy and Future Revenue Projections'',
         url = ''https://reddit.com/r/Superstonk/mock2'',
         permalink = ''/r/Superstonk/comments/mock2'',
         author = ''RoaringKitty22'',
         created_utc = of_int (clock 1) / 1000 - 3600 * 12,
         upvotes = 2876,
         commentCount = 412,
         selftext = ''I've analyzed GME's NFT marketplace strategy and projected potential revenue streams. Based on current growth and market trends, they could capture 15-20% of the gaming NFT market within 2 years. Full analysis in post...''\<rparr>,
        \<lparr>post_title = ''Ryan Cohen Just Purchased Another 100,000 Shares of GME'',
         url = ''https://reddit.com/r/GME/mock3'',
         permalink = ''/r/GME/comments/mock3'',
         author = ''ApeAnalyst'',
         created_utc = of_int (clock 2) / 1000 - 3600 * 8,
         upvotes = 3542,
         commentCount = 621,
         selftext = ''Breaking news: RC just filed that he purchased another 100K shares at an average price of $142.86. This brings his total to 9.1M shares or approximately 12% of outstanding shares. Bullish!''\<rparr>,
        \<lparr>post_title = ''GameStop Announces New Partnership with Major Game Publisher'',
         url = ''https://reddit.com/r/Superstonk/mock4'',
         permalink = ''/r/Superstonk/comments/mock4'',
         author = ''GMEtoTheMoon'',
         created_utc = of_int (clock 3) / 1000 - 3600 * 18,
         upvotes = 1932,
         commentCount = 304,
         selftext = ''GameStop just announced an exclusive partnership with [Major Publisher] to offer special edition collectibles and early access to upcoming releases. This is huge for building their brand value in the gaming community.''\<rparr>,
        \<lparr>post_title = ''Technical Analysis: GME Set for Potential Breakout This Week'',
         url = ''https://reddit.com/r/wallstreetbets/mock5'',
         permalink = ''/r/wallstreetbets/comments/mock5'',
         author = ''ChartGuru'',
         created_utc = of_int (clock 4) / 1000 - 3600 * 10,
         upvotes = 876,
         commentCount = 203,
         selftext = ''Looking at the charts, GME is forming a clear bull flag pattern with increasing volume. MACD crossing over and RSI at 62 suggests momentum is building. We could see a test of $180 resistance soon if volume continues.''\<rparr>]"

text \<open>\<open>post.permalink.split('/')[2].toLowerCase()\<close>; \<open>None\<close> where the index is out of range.\<close>

definition postSubreddit :: "RedditPost \<Rightarrow> string option" where
  "postSubreddit post =
     (case splitOn (CHR ''/'') (permalink post) of
        _ # _ # sub # _ \<Rightarrow> Some (toLowerCase sub)
      | _ \<Rightarrow> None)"

definition getMockRedditPosts :: "(nat \<Rightarrow> int) \<Rightarrow> string list \<Rightarrow> RedditPost list" where
  "getMockRedditPosts clock subs =
     (if length subs > 0 \<and> hd subs \<noteq> []
      then filter (\<lambda>post. case postSubreddit post of
                            Some sub \<Rightarrow> sub \<in> set (map toLowerCase subs)
                          | None \<Rightarrow> False)
             (mockPosts clock)
      else mockPosts clock)"

text \<open>
  Both parameters have defaults, taken when the argument is \<open>undefined\<close> (\<open>None\<close>). The
  body waits half a second and returns \<open>getMockRedditPosts(subreddits)\<close>.
\<close>

definition fetchRedditPosts ::
  "(nat \<Rightarrow> int) \<Rightarrow> string list option \<Rightarrow> string option \<Rightarrow> RedditPost list" where
  "fetchRedditPosts clock subs frame =
     (let subs' = (case subs of None \<Rightarrow> [''wallstreetbets'', ''stocks'', ''GME'', ''Superstonk'']
                   | Some given \<Rightarrow> given);
          frame' = (case frame of None \<Rightarrow> ''day'' | Some given \<Rightarrow> given)
      in getMockRedditPosts clock subs')"

section \<open>What the workers call outside the program\<close>

text \<open>
  The reasoning oracle, the clock and \<open>JSON\<close> are not code of the repository. \<open>'w\<close> is the
  state of the world outside the program. \<open>llm env w prompt\<close> is one call
  \<open>llm.invoke(prompt)\<close> in world \<open>w\<close>: the text of the reply, or \<open>None\<close> when the call
  throws or its reply holds no text to read, and the world after the call. The three parsers stand for \<open>JSON.parse\<close> followed
  by the reads the worker makes of the parsed value: \<open>None\<close> when the text is not JSON of
  the shape read (\<open>JSON.parse\<close> or a later property access throws).
\<close>

record Focus =
  subreddits :: "string list option"
  aspects :: "string list"
  timeFrame :: "string option"

record PostSummary =
  ps_title :: string
  ps_summary :: string

record Analysis =
  an_sentiment :: string
  an_mainTopics :: "string list"
  an_summary :: string
  an_topPostsSummaries :: "PostSummary list"

record 'w Env =
  llm :: "'w \<Rightarrow> (string \<times> string) list \<Rightarrow> string option \<times> 'w"
  dateNow :: "'w \<Rightarrow> nat \<Rightarrow> int"
  parseFeatureRequest :: "string \<Rightarrow> FeatureRequest option"
  parseFocus :: "string \<Rightarrow> Focus option"
  parseAnalysis :: "string \<Rightarrow> Analysis option"
  stringifyPosts :: "RedditPost list \<Rightarrow> string"

text \<open>
  \<open>content.match(/```json\s*([\s\S]*?)\s*```|({[\s\S]*})/)?.[1] || content\<close>. The match
  is the leftmost one; group 1 belongs to the fenced alternative only, and is the text
  after the opening fence and its white space up to the first point where white space and
  a closing fence follow. An unset or empty group 1 gives the whole content.
\<close>

fun fencedBody :: "string \<Rightarrow> string" where
  "fencedBody [] = []"
| "fencedBody (c # cs) =
     (if prefix ''```'' (dropWhile isSpace (c # cs)) then [] else c # fencedBody cs)"

fun jsonMatch :: "string \<Rightarrow> string option option" where
  "jsonMatch [] = None"
| "jsonMatch (c # cs) =
     (if prefix ''```json'' (c # cs) \<and> includesStr (drop 7 (c # cs)) ''```''
      then Some (Some (fencedBody (dropWhile isSpace (drop 7 (c # cs)))))
      else if c = CHR ''{'' \<and> CHR ''}'' \<in> set cs then Some None
      else jsonMatch cs)"

definition jsonText :: "string \<Rightarrow> string" where
  "jsonText text =
     (case jsonMatch text of
        Some (Some group1) \<Rightarrow> (if group1 = [] then text else group1)
      | _ \<Rightarrow> text)"

section \<open>Texts of the workers\<close>

definition greetingText :: string where
  "greetingText =
     ''Hello! I'm your personal assistant. How can I help you today?''"

definition routerPrompt :: string where
  "routerPrompt =
     joinWith [CHR 0x0A]
        [''You are a router agent that analyzes user requests and directs them to the appropriate specialized agent.'',
         ''          - If the user is reporting a problem, suggesting a feature, or describing a pain point, route to '' @ [CHR 0x22] @ ''FeatureRequestAgent'' @ [CHR 0x22],
         ''          - If the user is asking a complex research question that requires deep analysis, route to '' @ [CHR 0x22] @ ''DeepResearchAgent'' @ [CHR 0x22],
         ''          - If the user is asking about GameStop (GME) Reddit activity or stock sentiment, route to '' @ [CHR 0x22] @ ''GmeRedditSummaryAgent'' @ [CHR 0x22],
         ''          - For general questions or if no specialized agent is appropriate, respond as '' @ [CHR 0x22] @ ''PersonalAssistant'' @ [CHR 0x22],
         ''          '',
         ''          Respond with only the agent name.'']"

definition assistantErrorText :: string where
  "assistantErrorText =
     ''I encountered an issue while processing your request. Please try again.''"

definition featureRequestPrompt :: string where
  "featureRequestPrompt =
     joinWith [CHR 0x0A]
        [''You are a feature request specialist. Your job is to extract details about a user's feature request, problem, or pain point.'',
         ''          Format the information as a JSON object with the following structure:'',
         ''          {'',
         ''            '' @ [CHR 0x22] @ ''title'' @ [CHR 0x22] @ '': '' @ [CHR 0x22] @ ''Brief title for the feature request'' @ [CHR 0x22] @ '','',
         ''            '' @ [CHR 0x22] @ ''description'' @ [CHR 0x22] @ '': '' @ [CHR 0x22] @ ''Detailed description of the feature or problem'' @ [CHR 0x22] @ '','',
         ''            '' @ [CHR 0x22] @ ''userGoal'' @ [CHR 0x22] @ '': '' @ [CHR 0x22] @ ''What the user is trying to accomplish'' @ [CHR 0x22] @ '','',
         ''            '' @ [CHR 0x22] @ ''exampleUseCase'' @ [CHR 0x22] @ '': '' @ [CHR 0x22] @ ''A concrete example of how this feature would be used'' @ [CHR 0x22],
         ''          }'',
         ''          '',
         ''          If any information is missing or unclear, make a reasonable inference based on what the user has shared.'']"

definition featureClarificationText :: string where
  "featureClarificationText =
     ''I had trouble processing your feature request. Could you provide more details about what you're looking for?''"

definition featureErrorText :: string where
  "featureErrorText =
     ''I encountered an issue while processing your feature request. Please try again.''"

definition featureLoggedText :: "FeatureRequest \<Rightarrow> string" where
  "featureLoggedText featureRequest =
     joinWith [CHR 0x0A]
        [''Thanks for your input! I've documented your request with the following details:'',
         ''              '',
         ''              **Title**: '' @ title featureRequest,
         ''              **Description**: '' @ description featureRequest,
         ''              **User Goal**: '' @ userGoal featureRequest,
         ''              **Example Use Case**: '' @ exampleUseCase featureRequest,
         ''              '',
         ''              Your request has been added to our feature request queue. Is there anything else you'd like to share about this feature?'']"

definition researchQuestionPrompt :: string where
  "researchQuestionPrompt =
     joinWith [CHR 0x0A]
        [''You are a research specialist. Based on the user's message, formulate a clear research question.'',
         ''          Keep the question focused and specific. Return only the research question without any additional text.'']"

definition synthesisPrompt :: "string \<Rightarrow> string" where
  "synthesisPrompt researchQuestion =
     joinWith [CHR 0x0A]
        [''You are a research specialist. Synthesize the following sources to answer the question: '' @ [CHR 0x22] @ researchQuestion @ [CHR 0x22],
         ''          Provide a comprehensive answer based only on the provided sources. Cite specific sources where appropriate.'',
         ''          If the sources don't contain sufficient information to answer the question fully, acknowledge the limitations.'']"

definition researchErrorText :: string where
  "researchErrorText =
     ''I encountered an issue while researching your question. Would you mind rephrasing it or providing more context?''"

definition researchAnswerText :: "string \<Rightarrow> string \<Rightarrow> string list \<Rightarrow> string" where
  "researchAnswerText researchQuestion synthesis srcs =
     joinWith [CHR 0x0A]
        [''Here's what I found regarding '' @ [CHR 0x22] @ researchQuestion @ [CHR 0x22] @ '':'',
         [],
         synthesis,
         [],
         ''My research drew from '' @ showNat (length srcs) @ '' sources. Would you like more details on any specific aspect?'']"

definition focusPrompt :: string where
  "focusPrompt =
     joinWith [CHR 0x0A]
        [''You are a Reddit analysis specialist. Based on the user's message, determine:'',
         ''          1. Which subreddits to focus on (default to '' @ [CHR 0x22] @ ''wallstreetbets'' @ [CHR 0x22] @ '', '' @ [CHR 0x22] @ ''stocks'' @ [CHR 0x22] @ '', '' @ [CHR 0x22] @ ''GME'' @ [CHR 0x22] @ '', '' @ [CHR 0x22] @ ''Superstonk'' @ [CHR 0x22] @ '' if not specified)'',
         ''          2. What specific aspects the user is interested in (e.g., sentiment, DD analysis, memes, specific news)'',
         ''          3. Time frame of interest (default to '' @ [CHR 0x22] @ ''latest'' @ [CHR 0x22] @ '' if not specified)'',
         ''          '',
         ''          Format your response as a JSON object:'',
         ''          {'',
         ''            '' @ [CHR 0x22] @ ''subreddits'' @ [CHR 0x22] @ '': ['' @ [CHR 0x22] @ ''sub1'' @ [CHR 0x22] @ '', '' @ [CHR 0x22] @ ''sub2'' @ [CHR 0x22] @ ''],'',
         ''            '' @ [CHR 0x22] @ ''aspects'' @ [CHR 0x22] @ '': ['' @ [CHR 0x22] @ ''aspect1'' @ [CHR 0x22] @ '', '' @ [CHR 0x22] @ ''aspect2'' @ [CHR 0x22] @ ''],'',
         ''            '' @ [CHR 0x22] @ ''timeFrame'' @ [CHR 0x22] @ '': '' @ [CHR 0x22] @ ''string description of time frame'' @ [CHR 0x22],
         ''          }'']"

definition analysisPrompt :: "string list \<Rightarrow> string" where
  "analysisPrompt wanted =
     joinWith [CHR 0x0A]
        [''You are a Reddit content analyst specializing in stock market discussions, particularly GameStop (GME).'',
         ''          Analyze the provided Reddit posts and create a summary that focuses on: '' @ joinWith '', '' wanted @ ''.'',
         ''          '',
         ''          Format your response as a JSON object:'',
         ''          {'',
         ''            '' @ [CHR 0x22] @ ''sentiment'' @ [CHR 0x22] @ '': '' @ [CHR 0x22] @ ''positive'' @ [CHR 0x22] @ '' | '' @ [CHR 0x22] @ ''negative'' @ [CHR 0x22] @ '' | '' @ [CHR 0x22] @ ''neutral'' @ [CHR 0x22] @ '' | '' @ [CHR 0x22] @ ''mixed'' @ [CHR 0x22] @ '','',
         ''            '' @ [CHR 0x22] @ ''mainTopics'' @ [CHR 0x22] @ '': ['' @ [CHR 0x22] @ ''topic1'' @ [CHR 0x22] @ '', '' @ [CHR 0x22] @ ''topic2'' @ [CHR 0x22] @ '', '' @ [CHR 0x22] @ ''topic3'' @ [CHR 0x22] @ ''],'',
         ''            '' @ [CHR 0x22] @ ''summary'' @ [CHR 0x22] @ '': '' @ [CHR 0x22] @ ''Overall summary of the findings'' @ [CHR 0x22] @ '','',
         ''            '' @ [CHR 0x22] @ ''topPostsSummaries'' @ [CHR 0x22] @ '': ['',
         ''              {'' @ [CHR 0x22] @ ''title'' @ [CHR 0x22] @ '': '' @ [CHR 0x22] @ ''post title'' @ [CHR 0x22] @ '', '' @ [CHR 0x22] @ ''summary'' @ [CHR 0x22] @ '': '' @ [CHR 0x22] @ ''brief summary of post and key comments'' @ [CHR 0x22] @ ''}'',
         ''            ]'',
         ''          }'']"

definition redditErrorText :: string where
  "redditErrorText =
     ''I encountered an issue while fetching the latest GME information from Reddit. This could be due to API rate limits or connectivity issues. Would you like me to try again or focus on a specific aspect?''"

definition topPostLine :: "SummaryPost \<Rightarrow> string" where
  "topPostLine post =
     ''- ['' @ sp_title post @ '']('' @ sp_url post @ '') ('' @ showInt (sp_upvotes post) @ '' upvotes): '' @ sp_summary post"

definition redditAnswerText :: "Analysis \<Rightarrow> SummaryPost list \<Rightarrow> string" where
  "redditAnswerText analysis posts =
     joinWith [CHR 0x0A]
        [''Here's the latest on GME from Reddit:'',
         ''          '',
         ''          **Overall Sentiment**: '' @ an_sentiment analysis,
         ''          '',
         ''          **Main Topics of Discussion**:'',
         ''          '' @ joinWith [CHR 0x0A] (map (\<lambda>topic. ''- '' @ topic) (an_mainTopics analysis)),
         ''          '',
         ''          **Summary**:'',
         ''          '' @ an_summary analysis,
         ''          '',
         ''          **Top Posts**:'',
         ''          '' @ joinWith [CHR 0x0A, CHR 0x0A] (map topPostLine posts),
         ''          '',
         ''          Would you like more details on any specific aspect?'']"

section \<open>The supervisor (agents/personalAssistant.ts)\<close>

definition assistantMessage :: "string \<Rightarrow> string \<Rightarrow> Message" where
  "assistantMessage text agent = \<lparr>role = Assistant, content = text, agentName = Some agent\<rparr>"

text \<open>\<open>state.messages.filter(m => m.role === "user").slice(-1)[0]\<close>.\<close>

definition lastUserMessage :: "GraphState \<Rightarrow> Message option" where
  "lastUserMessage state =
     (case filter (\<lambda>m. role m = User) (messages state) of [] \<Rightarrow> None | m # ms \<Rightarrow> Some (last (m # ms)))"

definition getRoutingMessage :: "string \<Rightarrow> string \<Rightarrow> string" where
  "getRoutingMessage agent userMessage =
     (if agent = ''FeatureRequestAgent''
      then ''I understand you have a feature idea or suggestion. Let me help document that for you.''
      else if agent = ''DeepResearchAgent''
      then ''That'' @ [CHR 0x27] @ ''s an interesting question that requires some research. Let me dig into that for you.''
      else if agent = ''GmeRedditSummaryAgent''
      then ''I'' @ [CHR 0x27] @ ''ll gather the latest information about GME from Reddit for you.''
      else ''How can I assist you today?'')"

definition personalAssistantAgent :: "'w Env \<Rightarrow> 'w \<Rightarrow> GraphState \<Rightarrow> GraphState \<times> 'w" where
  "personalAssistantAgent env w state =
     (case lastUserMessage state of
        None \<Rightarrow>
          (\<lparr>messages = messages state @ [assistantMessage greetingText ''PersonalAssistant''],
            agentState = (agentState state)
              \<lparr>currentAgent := ''PersonalAssistant'', taskCompleted := False\<rparr>\<rparr>, w)
      | Some latestMessage \<Rightarrow>
          (case llm env w [(''system'', routerPrompt), (''user'', content latestMessage)] of
             (None, w') \<Rightarrow>
               (\<lparr>messages = messages state @ [assistantMessage assistantErrorText ''PersonalAssistant''],
                 agentState = (agentState state)
                   \<lparr>currentAgent := ''PersonalAssistant'', taskCompleted := False\<rparr>\<rparr>, w')
           | (Some reply, w') \<Rightarrow>
               (let agent = trim reply
                in (\<lparr>messages = messages state @
                      [assistantMessage (getRoutingMessage agent (content latestMessage))
                         ''PersonalAssistant''],
                    agentState = (agentState state)
                      \<lparr>currentAgent := agent, taskCompleted := False\<rparr>\<rparr>, w'))))"

section \<open>The feature-capture worker (agents/featureRequest.ts)\<close>

text \<open>
  The parsed object is spread into the request and \<open>timestamp: new Date()\<close> written over
  it. The outer \<open>catch\<close> takes a failing oracle call, the inner one a failing parse.
\<close>

definition featureRequestAgent ::
  "'w Env \<Rightarrow> 'w \<Rightarrow> Queue \<Rightarrow> GraphState \<Rightarrow> GraphState \<times> Queue \<times> 'w" where
  "featureRequestAgent env w q state =
     (let userMessages =
            joinWith [CHR 0x0A] (map content (filter (\<lambda>m. role m = User) (messages state)))
      in case llm env w [(''system'', featureRequestPrompt), (''user'', userMessages)] of
           (None, w') \<Rightarrow>
             (\<lparr>messages = messages state @ [assistantMessage featureErrorText ''FeatureRequestAgent''],
               agentState = (agentState state)\<lparr>taskCompleted := False\<rparr>\<rparr>, q, w')
         | (Some reply, w') \<Rightarrow>
             (case parseFeatureRequest env (jsonText reply) of
                None \<Rightarrow>
                  (\<lparr>messages = messages state @
                      [assistantMessage featureClarificationText ''FeatureRequestAgent''],
                    agentState = (agentState state)\<lparr>taskCompleted := False\<rparr>\<rparr>, q, w')
              | Some featureRequestData \<Rightarrow>
                  (let featureRequest = featureRequestData\<lparr>timestamp := dateNow env w' 0\<rparr>;
                       q' = snd (addFeatureRequest featureRequest q);
                       updatedAgentState = (agentState state)
                         \<lparr>featureRequests := featureRequests (agentState state) @ [featureRequest],
                          taskCompleted := True,
                          currentAgent := ''PersonalAssistant''\<rparr>
                   in (\<lparr>messages = messages state @
                         [assistantMessage (featureLoggedText featureRequest) ''FeatureRequestAgent''],
                       agentState = updatedAgentState\<rparr>, q', w'))))"

section \<open>The research worker (agents/deepResearch.ts)\<close>

text \<open>\<open>...slice(-1)[0]?.content || ""\<close>.\<close>

definition latestUserContent :: "GraphState \<Rightarrow> string" where
  "latestUserContent state = (case lastUserMessage state of None \<Rightarrow> [] | Some m \<Rightarrow> content m)"

definition sourcesText :: "string list \<Rightarrow> string" where
  "sourcesText srcs =
     ''Research Sources:'' @ [CHR 0x0A] @
     joinWith [CHR 0x0A, CHR 0x0A]
       (map (\<lambda>(i, s). ''Source '' @ showNat (i + 1) @ '': '' @ s) (enumerate 0 srcs))"

text \<open>The body of the \<open>try\<close>: \<open>None\<close> when it throws.\<close>

definition deepResearchTry :: "'w Env \<Rightarrow> 'w \<Rightarrow> GraphState \<Rightarrow> GraphState option \<times> 'w" where
  "deepResearchTry env w state =
     (case llm env w [(''system'', researchQuestionPrompt), (''user'', latestUserContent state)] of
        (None, w1) \<Rightarrow> (None, w1)
      | (Some questionReply, w1) \<Rightarrow>
          (let researchQuestion = trim questionReply;
               srcs = performResearch researchQuestion
           in case llm env w1 [(''system'', synthesisPrompt researchQuestion),
                               (''user'', sourcesText srcs)] of
                (None, w2) \<Rightarrow> (None, w2)
              | (Some synthesis, w2) \<Rightarrow>
                  (Some
                     \<lparr>messages = messages state @
                        [assistantMessage (researchAnswerText researchQuestion synthesis srcs)
                           ''DeepResearchAgent''],
                      agentState = (agentState state)
                        \<lparr>researchResults :=
                           Some \<lparr>question = researchQuestion, answer = synthesis, sources = srcs\<rparr>,
                         taskCompleted := True,
                         currentAgent := ''PersonalAssistant''\<rparr>\<rparr>, w2)))"

definition deepResearchAgent :: "'w Env \<Rightarrow> 'w \<Rightarrow> GraphState \<Rightarrow> GraphState \<times> 'w" where
  "deepResearchAgent env w state =
     (case deepResearchTry env w state of
        (Some result, w') \<Rightarrow> (result, w')
      | (None, w') \<Rightarrow>
          (\<lparr>messages = messages state @ [assistantMessage researchErrorText ''DeepResearchAgent''],
            agentState = (agentState state)\<lparr>taskCompleted := False\<rparr>\<rparr>, w'))"

section \<open>The social-summary worker (agents/gmeRedditSummary.ts)\<close>

text \<open>\<open>analysis.topPostsSummaries[i]?.summary || "No summary available"\<close>.\<close>

definition summarizePost :: "Analysis \<Rightarrow> nat \<times> RedditPost \<Rightarrow> SummaryPost" where
  "summarizePost analysis ip =
     (let i = fst ip; post = snd ip; given = an_topPostsSummaries analysis
      in \<lparr>sp_title = post_title post,
          sp_url = url post,
          sp_upvotes = upvotes post,
          sp_commentCount = commentCount post,
          sp_summary = (if i < length given \<and> ps_summary (given ! i) \<noteq> []
                        then ps_summary (given ! i) else ''No summary available'')\<rparr>)"

definition gmeRedditTry :: "'w Env \<Rightarrow> 'w \<Rightarrow> GraphState \<Rightarrow> GraphState option \<times> 'w" where
  "gmeRedditTry env w state =
     (case llm env w [(''system'', focusPrompt), (''user'', latestUserContent state)] of
        (None, w1) \<Rightarrow> (None, w1)
      | (Some focusReply, w1) \<Rightarrow>
          (case parseFocus env (jsonText focusReply) of
             None \<Rightarrow> (None, w1)
           | Some focus \<Rightarrow>
               (let redditPosts = fetchRedditPosts (dateNow env w1) (subreddits focus) (timeFrame focus)
                in case llm env w1 [(''system'', analysisPrompt (aspects focus)),
                                    (''user'', ''Reddit Posts:'' @ [CHR 0x0A] @
                                       stringifyPosts env redditPosts)] of
                     (None, w2) \<Rightarrow> (None, w2)
                   | (Some analysisReply, w2) \<Rightarrow>
                       (case parseAnalysis env (jsonText analysisReply) of
                          None \<Rightarrow> (None, w2)
                        | Some analysis \<Rightarrow>
                            (let posts = map (summarizePost analysis)
                                           (enumerate 0 (take 5 redditPosts));
                                 summary = \<lparr>topic = ''GameStop (GME)'',
                                            sentiment = an_sentiment analysis,
                                            mainTopics = an_mainTopics analysis,
                                            topPosts = posts\<rparr>
                             in (Some
                                   \<lparr>messages = messages state @
                                      [assistantMessage (redditAnswerText analysis posts)
                                         ''GmeRedditSummaryAgent''],
                                    agentState = (agentState state)
                                      \<lparr>redditSummary := Some summary,
                                       taskCompleted := True,
                                       currentAgent := ''PersonalAssistant''\<rparr>\<rparr>, w2))))))"

definition gmeRedditSummaryAgent :: "'w Env \<Rightarrow> 'w \<Rightarrow> GraphState \<Rightarrow> GraphState \<times> 'w" where
  "gmeRedditSummaryAgent env w state =
     (case gmeRedditTry env w state of
        (Some result, w') \<Rightarrow> (result, w')
      | (None, w') \<Rightarrow>
          (\<lparr>messages = messages state @ [assistantMessage redditErrorText ''GmeRedditSummaryAgent''],
            agentState = (agentState state)\<lparr>taskCompleted := False\<rparr>\<rparr>, w'))"

section \<open>One pass of the graph (buildAgentGraph)\<close>

text \<open>
  The two channels: \<open>messages\<close> takes what the node returned beyond the length it had,
  \<open>agentState\<close> is replaced.
\<close>

definition messagesReducer :: "Message list \<Rightarrow> Message list \<Rightarrow> Message list" where
  "messagesReducer prev new = prev @ drop (length prev) new"

definition agentStateReducer :: "AgentState \<Rightarrow> AgentState \<Rightarrow> AgentState" where
  "agentStateReducer prev new = new"

definition mergeState :: "GraphState \<Rightarrow> GraphState \<Rightarrow> GraphState" where
  "mergeState prev new =
     \<lparr>messages = messagesReducer (messages prev) (messages new),
      agentState = agentStateReducer (agentState prev) (agentState new)\<rparr>"

definition runNode ::
  "'w Env \<Rightarrow> Node \<Rightarrow> 'w \<Rightarrow> Queue \<Rightarrow> GraphState \<Rightarrow> GraphState \<times> Queue \<times> 'w" where
  "runNode env node w q state =
     (case node of
        PersonalAssistant \<Rightarrow> (case personalAssistantAgent env w state of (s, w') \<Rightarrow> (s, q, w'))
      | FeatureRequestAgent \<Rightarrow> featureRequestAgent env w q state
      | DeepResearchAgent \<Rightarrow> (case deepResearchAgent env w state of (s, w') \<Rightarrow> (s, q, w'))
      | GmeRedditSummaryAgent \<Rightarrow> (case gmeRedditSummaryAgent env w state of (s, w') \<Rightarrow> (s, q, w')))"

text \<open>
  The edges: the router's answer looked up in the path map after the supervisor, the
  supervisor after every worker.
\<close>

definition nextTarget :: "Node \<Rightarrow> GraphState \<Rightarrow> Target option" where
  "nextTarget node state =
     (case node of
        PersonalAssistant \<Rightarrow> conditionalEdges (router state)
      | _ \<Rightarrow> Some (To PersonalAssistant))"

text \<open>
  A pass is at a node, has reached END, or has no destination for the router's answer
  (the graph library raises an error there).
\<close>

datatype 'w Pass =
    Running Node GraphState Queue 'w
  | Finished GraphState Queue 'w
  | NoDestination string GraphState Queue 'w

fun passState :: "'w Pass \<Rightarrow> GraphState" where
  "passState (Running node state q w) = state"
| "passState (Finished state q w) = state"
| "passState (NoDestination key state q w) = state"

fun graphStep :: "'w Env \<Rightarrow> 'w Pass \<Rightarrow> 'w Pass" where
  "graphStep env (Running node state q w) =
     (case runNode env node w q state of
        (out, q', w') \<Rightarrow>
          (let state' = mergeState state out
           in case nextTarget node state' of
                None \<Rightarrow> NoDestination (router state') state' q' w'
              | Some END \<Rightarrow> Finished state' q' w'
              | Some (To node') \<Rightarrow> Running node' state' q' w'))"
| "graphStep env (Finished state q w) = Finished state q w"
| "graphStep env (NoDestination key state q w) = NoDestination key state q w"

text \<open>The pass after \<open>n\<close> more node runs.\<close>

definition graphSteps :: "'w Env \<Rightarrow> nat \<Rightarrow> 'w Pass \<Rightarrow> 'w Pass" where
  "graphSteps env n = (graphStep env) ^^ n"

text \<open>The node a pass is at.\<close>

fun passNode :: "'w Pass \<Rightarrow> Node option" where
  "passNode (Running node state q w) = Some node"
| "passNode (Finished state q w) = None"
| "passNode (NoDestination key state q w) = None"

section \<open>The single-file assistant: supervisor, workers and tool loops\<close>

text \<open>
  The second program of the repository builds its graph from LangChain messages. Its
  \<open>AgentState\<close> is \<open>LoopState\<close> here, a node returns an \<open>Update\<close> (a partial state), and
  the channels append the messages of an update and replace the two other fields.
\<close>

record ToolCall =
  tool :: string
  args :: string

datatype BaseMessage =
    HumanMessage string
  | AIMessage string "ToolCall list"
  | ToolMessage string
  | SystemMessage string

record LoopState =
  loop_messages :: "BaseMessage list"
  userInput :: string
  nextAgent :: string

record Update =
  new_messages :: "BaseMessage list option"
  new_userInput :: "string option"
  new_nextAgent :: "string option"

definition stateChannels :: "LoopState \<Rightarrow> Update \<Rightarrow> LoopState" where
  "stateChannels state upd =
     \<lparr>loop_messages = (case new_messages upd of None \<Rightarrow> loop_messages state
                        | Some y \<Rightarrow> loop_messages state @ y),
      userInput = (case new_userInput upd of None \<Rightarrow> userInput state | Some y \<Rightarrow> y),
      nextAgent = (case new_nextAgent upd of None \<Rightarrow> nextAgent state | Some y \<Rightarrow> y)\<rparr>"

record FeatureRequestData =
  fr_id :: string
  fr_title :: string
  fr_description :: string
  goals :: "string list"
  use_cases :: "string list"

text \<open>
  The chains, the UUID source and the tools are calls out of the program, in a world
  \<open>'w\<close>. A chain gives \<open>None\<close> when its call throws. An agent runnable answers with an AI
  message: its text and its tool calls. \<open>runTools\<close> is the prebuilt tool node's work on one
  tool call: the text of the tool message it returns.
\<close>

record 'w Chains =
  supervisorChain :: "'w \<Rightarrow> BaseMessage list \<Rightarrow> string option \<times> 'w"
  featureRequestChain :: "'w \<Rightarrow> BaseMessage list \<Rightarrow> FeatureRequestData option \<times> 'w"
  randomUUID :: "'w \<Rightarrow> string \<times> 'w"
  researchAgentRunnable :: "'w \<Rightarrow> BaseMessage list \<Rightarrow> (string \<times> ToolCall list) option \<times> 'w"
  redditAgentRunnable :: "'w \<Rightarrow> BaseMessage list \<Rightarrow> (string \<times> ToolCall list) option \<times> 'w"
  runResearchTool :: "'w \<Rightarrow> ToolCall \<Rightarrow> string \<times> 'w"
  runRedditTool :: "'w \<Rightarrow> ToolCall \<Rightarrow> string \<times> 'w"

definition emptyUpdate :: Update where
  "emptyUpdate = \<lparr>new_messages = None, new_userInput = None, new_nextAgent = None\<rparr>"

definition validNodes :: "string list" where
  "validNodes = [''feature_request_agent'', ''research_agent'', ''gme_reddit_agent'', ''FINISH'']"

text \<open>\<open>None\<close>: the chain threw, and so does the node.\<close>

definition supervisorNode :: "'w Chains \<Rightarrow> 'w \<Rightarrow> LoopState \<Rightarrow> Update option \<times> 'w" where
  "supervisorNode env w state =
     (case supervisorChain env w (loop_messages state) of
        (None, w') \<Rightarrow> (None, w')
      | (Some reply, w') \<Rightarrow>
          (let nextNodeName = trim reply;
               nextNodeName' = (if nextNodeName \<notin> set validNodes then ''FINISH'' else nextNodeName)
           in (Some (emptyUpdate\<lparr>new_nextAgent := Some nextNodeName'\<rparr>), w')))"

definition featureLoggedReply :: "FeatureRequestData \<Rightarrow> string" where
  "featureLoggedReply featureData =
     ''OK, I'' @ [CHR 0x27] @ ''ve logged your feature request titled '' @ [CHR 0x27] @
     fr_title featureData @ [CHR 0x27] @ ''. It'' @ [CHR 0x27] @
     ''s been added to our queue (ID: '' @ fr_id featureData @
     ''). Is there anything else I can help with?''"

definition featureSorryReply :: string where
  "featureSorryReply =
     ''Sorry, I had trouble formulating that feature request. Could you please try rephrasing?''"

definition featureRequestNode ::
  "'w Chains \<Rightarrow> 'w \<Rightarrow> FeatureRequestData list \<Rightarrow> LoopState
     \<Rightarrow> Update \<times> FeatureRequestData list \<times> 'w" where
  "featureRequestNode env w q state =
     (let relevantMessages = drop (length (loop_messages state) - 1) (loop_messages state)
      in case featureRequestChain env w relevantMessages of
           (None, w') \<Rightarrow>
             (emptyUpdate\<lparr>new_messages := Some [AIMessage featureSorryReply []]\<rparr>, q, w')
         | (Some structuredOutput, w') \<Rightarrow>
             (case randomUUID env w' of
                (featureId, w'') \<Rightarrow>
                  (let featureData = structuredOutput\<lparr>fr_id := featureId\<rparr>
                   in (emptyUpdate\<lparr>new_messages := Some [AIMessage (featureLoggedReply featureData) []]\<rparr>,
                       q @ [featureData], w''))))"

definition agentNode ::
  "('w \<Rightarrow> BaseMessage list \<Rightarrow> (string \<times> ToolCall list) option \<times> 'w) \<Rightarrow> 'w \<Rightarrow> LoopState
     \<Rightarrow> Update option \<times> 'w" where
  "agentNode runnable w state =
     (case runnable w (loop_messages state) of
        (None, w') \<Rightarrow> (None, w')
      | (Some (text, calls), w') \<Rightarrow>
          (Some (emptyUpdate\<lparr>new_messages := Some [AIMessage text calls]\<rparr>), w'))"

definition researchAgentNode :: "'w Chains \<Rightarrow> 'w \<Rightarrow> LoopState \<Rightarrow> Update option \<times> 'w" where
  "researchAgentNode env = agentNode (researchAgentRunnable env)"

definition gmeRedditAgentNode :: "'w Chains \<Rightarrow> 'w \<Rightarrow> LoopState \<Rightarrow> Update option \<times> 'w" where
  "gmeRedditAgentNode env = agentNode (redditAgentRunnable env)"

text \<open>
  The prebuilt tool node and the prebuilt edge condition of the graph library: the node
  runs the tool calls of the last message and returns one tool message for each; the
  condition looks for tool calls in the last message and answers \<open>"tools"\<close> when there
  are some and the library's \<open>END\<close> otherwise, which is the key \<open>"__end__"\<close>.
\<close>

fun toolCallsOf :: "BaseMessage list \<Rightarrow> ToolCall list option" where
  "toolCallsOf [] = None"
| "toolCallsOf ms = (case last ms of AIMessage text calls \<Rightarrow> Some calls | _ \<Rightarrow> None)"

fun runCalls :: "('w \<Rightarrow> ToolCall \<Rightarrow> string \<times> 'w) \<Rightarrow> 'w \<Rightarrow> ToolCall list \<Rightarrow> BaseMessage list \<times> 'w" where
  "runCalls run w [] = ([], w)"
| "runCalls run w (c # cs) =
     (case run w c of
        (result, w') \<Rightarrow> (case runCalls run w' cs of (rest, w'') \<Rightarrow> (ToolMessage result # rest, w'')))"

definition toolNode ::
  "('w \<Rightarrow> ToolCall \<Rightarrow> string \<times> 'w) \<Rightarrow> 'w \<Rightarrow> LoopState \<Rightarrow> Update option \<times> 'w" where
  "toolNode run w state =
     (case toolCallsOf (loop_messages state) of
        None \<Rightarrow> (None, w)
      | Some calls \<Rightarrow>
          (case runCalls run w calls of
             (results, w') \<Rightarrow> (Some (emptyUpdate\<lparr>new_messages := Some results\<rparr>), w')))"

definition libraryEND :: string where
  "libraryEND = ''__end__''"

definition toolsCondition :: "LoopState \<Rightarrow> string" where
  "toolsCondition state =
     (case toolCallsOf (loop_messages state) of Some (c # cs) \<Rightarrow> ''tools'' | _ \<Rightarrow> libraryEND)"

datatype LoopNode =
    supervisor | feature_request_agent | research_agent | research_tool_node
  | gme_reddit_agent | reddit_tool_node

datatype LoopTarget = LoopEND | Goto LoopNode

definition supervisorEdges :: "string \<Rightarrow> LoopTarget option" where
  "supervisorEdges =
     map_of
       [(''feature_request_agent'', Goto feature_request_agent),
        (''research_agent'', Goto research_agent),
        (''gme_reddit_agent'', Goto gme_reddit_agent),
        (''FINISH'', LoopEND)]"

text \<open>The path maps after the two agents, with the keys the source gives them.\<close>

definition researchEdges :: "string \<Rightarrow> LoopTarget option" where
  "researchEdges =
     map_of [(''tools'', Goto research_tool_node), (''end'', Goto supervisor)]"

definition redditEdges :: "string \<Rightarrow> LoopTarget option" where
  "redditEdges =
     map_of [(''tools'', Goto reddit_tool_node), (''end'', Goto supervisor)]"

text \<open>
  A run is at a node, has reached END, has a node that threw, or has no destination in
  a path map for the answer of an edge function (the graph library raises an error
  there).
\<close>

datatype 'w LoopRun =
    At LoopNode LoopState "FeatureRequestData list" 'w
  | Ended LoopState "FeatureRequestData list" 'w
  | Threw LoopNode LoopState "FeatureRequestData list" 'w
  | NoRoute string LoopState "FeatureRequestData list" 'w

text \<open>
  One step: the node runs, the channels merge its update, the edges of the source give
  the next node. After the supervisor and after an agent the answer of the edge function
  is looked up in the path map; after a tool node the edge goes back to the agent.
\<close>

fun loopStep :: "'w Chains \<Rightarrow> 'w LoopRun \<Rightarrow> 'w LoopRun" where
  "loopStep env (At supervisor state q w) =
     (case supervisorNode env w state of
        (None, w') \<Rightarrow> Threw supervisor state q w'
      | (Some upd, w') \<Rightarrow>
          (let state' = stateChannels state upd
           in case supervisorEdges (nextAgent state') of
                None \<Rightarrow> NoRoute (nextAgent state') state' q w'
              | Some LoopEND \<Rightarrow> Ended state' q w'
              | Some (Goto node) \<Rightarrow> At node state' q w'))"
| "loopStep env (At feature_request_agent state q w) =
     (case featureRequestNode env w q state of
        (upd, q', w') \<Rightarrow> At supervisor (stateChannels state upd) q' w')"
| "loopStep env (At research_agent state q w) =
     (case researchAgentNode env w state of
        (None, w') \<Rightarrow> Threw research_agent state q w'
      | (Some upd, w') \<Rightarrow>
          (let state' = stateChannels state upd
           in case researchEdges (toolsCondition state') of
                None \<Rightarrow> NoRoute (toolsCondition state') state' q w'
              | Some LoopEND \<Rightarrow> Ended state' q w'
              | Some (Goto node) \<Rightarrow> At node state' q w'))"
| "loopStep env (At research_tool_node state q w) =
     (case toolNode (runResearchTool env) w state of
        (None, w') \<Rightarrow> Threw research_tool_node state q w'
      | (Some upd, w') \<Rightarrow> At research_agent (stateChannels state upd) q w')"
| "loopStep env (At gme_reddit_agent state q w) =
     (case gmeRedditAgentNode env w state of
        (None, w') \<Rightarrow> Threw gme_reddit_agent state q w'
      | (Some upd, w') \<Rightarrow>
          (let state' = stateChannels state upd
           in case redditEdges (toolsCondition state') of
                None \<Rightarrow> NoRoute (toolsCondition state') state' q w'
              | Some LoopEND \<Rightarrow> Ended state' q w'
              | Some (Goto node) \<Rightarrow> At node state' q w'))"
| "loopStep env (At reddit_tool_node state q w) =
     (case toolNode (runRedditTool env) w state of
        (None, w') \<Rightarrow> Threw reddit_tool_node state q w'
      | (Some upd, w') \<Rightarrow> At gme_reddit_agent (stateChannels state upd) q w')"
| "loopStep env (Ended state q w) = Ended state q w"
| "loopStep env (Threw node state q w) = Threw node state q w"
| "loopStep env (NoRoute key state q w) = NoRoute key state q w"

text \<open>
  The run after \<open>n\<close> more node runs. How many of them an invocation makes is settled in
  \<open>invoke\<close> below, by the recursion limit.
\<close>

definition loopSteps :: "'w Chains \<Rightarrow> nat \<Rightarrow> 'w LoopRun \<Rightarrow> 'w LoopRun" where
  "loopSteps env n = (loopStep env) ^^ n"

text \<open>The node a run is at, and the state it holds.\<close>

fun loopNodeOf :: "'w LoopRun \<Rightarrow> LoopNode option" where
  "loopNodeOf (At node state q w) = Some node"
| "loopNodeOf (Ended state q w) = None"
| "loopNodeOf (Threw node state q w) = None"
| "loopNodeOf (NoRoute key state q w) = None"

fun loopStateOf :: "'w LoopRun \<Rightarrow> LoopState" where
  "loopStateOf (At node state q w) = state"
| "loopStateOf (Ended state q w) = state"
| "loopStateOf (Threw node state q w) = state"
| "loopStateOf (NoRoute key state q w) = state"

text \<open>
  \<open>app.invoke(inputs, config)\<close>. The channels start from their defaults and take the
  inputs; the entry point is the supervisor. The \<open>config\<close> of the source sets no recursion
  limit, so the limit is the library's default: when 25 nodes have run and the run has
  not reached END, the library raises its recursion error. A node that throws and an
  answer without a destination end the run with an error as well.
\<close>

definition channelDefaults :: LoopState where
  "channelDefaults = \<lparr>loop_messages = [], userInput = [], nextAgent = []\<rparr>"

definition recursionLimit :: nat where
  "recursionLimit = 25"

definition graphRun ::
  "'w Chains \<Rightarrow> nat \<Rightarrow> Update \<Rightarrow> FeatureRequestData list \<Rightarrow> 'w \<Rightarrow> 'w LoopRun" where
  "graphRun env n inputs q w =
     loopSteps env n (At supervisor (stateChannels channelDefaults inputs) q w)"

datatype GraphError = GraphRecursionError | NodeError LoopNode | UnknownDestination string

definition invoke ::
  "'w Chains \<Rightarrow> Update \<Rightarrow> FeatureRequestData list \<Rightarrow> 'w
     \<Rightarrow> (GraphError + LoopState) \<times> FeatureRequestData list \<times> 'w" where
  "invoke env inputs q w =
     (case graphRun env recursionLimit inputs q w of
        At node state q' w' \<Rightarrow> (Inl GraphRecursionError, q', w')
      | Ended state q' w' \<Rightarrow> (Inr state, q', w')
      | Threw node state q' w' \<Rightarrow> (Inl (NodeError node), q', w')
      | NoRoute key state q' w' \<Rightarrow> (Inl (UnknownDestination key), q', w'))"

text \<open>
  One turn of the loop of \<open>runConversation\<close>: what the assistant says (the line printed
  with \<open>Assistant:\<close>) and the messages kept for the next turn. \<open>exit\<close> ends the
  conversation. Otherwise the user's message is pushed, the graph is invoked, and the
  last message of the result is displayed; when the invocation raises an error the
  \<open>catch\<close> branch apologises and the messages stay as they were after the push.
\<close>

datatype Turn = Goodbye string | Reply string "BaseMessage list"

definition turnInputs :: "string \<Rightarrow> BaseMessage list \<Rightarrow> Update" where
  "turnInputs userText currentMessages =
     emptyUpdate\<lparr>new_messages := Some (currentMessages @ [HumanMessage userText]),
                  new_userInput := Some userText\<rparr>"

definition displayLine :: "BaseMessage list \<Rightarrow> string" where
  "displayLine ms =
     (if ms = [] then ''Assistant: [No response generated]''
      else case last ms of
             AIMessage reply calls \<Rightarrow> ''Assistant: '' @ reply
           | HumanMessage reply \<Rightarrow> ''Assistant: [State: human]''
           | ToolMessage reply \<Rightarrow> ''Assistant: [State: tool]''
           | SystemMessage reply \<Rightarrow> ''Assistant: [State: system]'')"

definition turnErrorLine :: string where
  "turnErrorLine = ''Assistant: Sorry, I encountered an error. Please try again.''"

definition conversationTurn ::
  "'w Chains \<Rightarrow> string \<Rightarrow> BaseMessage list \<Rightarrow> FeatureRequestData list \<Rightarrow> 'w
     \<Rightarrow> Turn \<times> FeatureRequestData list \<times> 'w" where
  "conversationTurn env userText currentMessages q w =
     (if toLowerCase userText = ''exit'' then (Goodbye ''Assistant: Goodbye!'', q, w)
      else case invoke env (turnInputs userText currentMessages) q w of
             (Inr result, q', w') \<Rightarrow>
               (Reply (displayLine (loop_messages result)) (loop_messages result), q', w')
           | (Inl err, q', w') \<Rightarrow>
               (Reply turnErrorLine (currentMessages @ [HumanMessage userText]), q', w'))"

text \<open>An oracle that asks for a tool on every call.\<close>

definition alwaysRequestsTool ::
  "('w \<Rightarrow> BaseMessage list \<Rightarrow> (string \<times> ToolCall list) option \<times> 'w) \<Rightarrow> bool" where
  "alwaysRequestsTool runnable =
     (\<forall>w ms. \<exists>text c cs w'. runnable w ms = (Some (text, c # cs), w'))"

section \<open>Example oracles and states\<close>

text \<open>The state \<open>handler\<close> starts a pass from: the initial state and the user's message.\<close>

definition handlerState :: "string \<Rightarrow> GraphState" where
  "handlerState userMessage =
     createInitialState
       \<lparr>messages := messages createInitialState @
          [\<lparr>role = User, content = userMessage, agentName = None\<rparr>]\<rparr>"

text \<open>
  The pass \<open>handler\<close> starts on a user turn: at the entry point of the graph, on the
  initial state with the user's message.
\<close>

definition handlerPass :: "string \<Rightarrow> Queue \<Rightarrow> 'w \<Rightarrow> 'w Pass" where
  "handlerPass userMessage q w = Running PersonalAssistant (handlerState userMessage) q w"

text \<open>
  An oracle with one answer to every prompt (or one that always throws), with parsers
  that reject every text.
\<close>

definition fixedReplyEnv :: "string option \<Rightarrow> unit Env" where
  "fixedReplyEnv reply =
     \<lparr>llm = (\<lambda>w prompt. (reply, w)),
      dateNow = (\<lambda>w k. 0),
      parseFeatureRequest = (\<lambda>s. None),
      parseFocus = (\<lambda>s. None),
      parseAnalysis = (\<lambda>s. None),
      stringifyPosts = (\<lambda>posts. [])\<rparr>"

text \<open>
  An oracle that gives the replies of a list, one for each call in turn, and throws when
  the list is used up; the world is the number of calls made. The parsers reject every
  text.
\<close>

definition scriptedEnv :: "string list \<Rightarrow> nat Env" where
  "scriptedEnv replies =
     \<lparr>llm = (\<lambda>w prompt. (if w < length replies then Some (replies ! w) else None, Suc w)),
      dateNow = (\<lambda>w k. 0),
      parseFeatureRequest = (\<lambda>s. None),
      parseFocus = (\<lambda>s. None),
      parseAnalysis = (\<lambda>s. None),
      stringifyPosts = (\<lambda>posts. [])\<rparr>"

definition darkModeReplies :: "string list" where
  "darkModeReplies =
     [''FeatureRequestAgent'', ''Dark mode, I think?'', ''DeepResearchAgent'', ''PersonalAssistant'']"

text \<open>Chains whose agents ask for one search on every call.\<close>

definition stubbornChains :: "unit Chains" where
  "stubbornChains =
     \<lparr>supervisorChain = (\<lambda>w ms. (Some ''research_agent'', w)),
      featureRequestChain = (\<lambda>w ms. (None, w)),
      randomUUID = (\<lambda>w. ([], w)),
      researchAgentRunnable =
        (\<lambda>w ms. (Some ([], [\<lparr>tool = ''tavily_search_results_json'', args = ''more''\<rparr>]), w)),
      redditAgentRunnable =
        (\<lambda>w ms. (Some ([], [\<lparr>tool = ''simulate_reddit_gme_fetcher'', args = ''more''\<rparr>]), w)),
      runResearchTool = (\<lambda>w c. (''no results'', w)),
      runRedditTool = (\<lambda>w c. (''no posts'', w))\<rparr>"

definition questionState :: LoopState where
  "questionState =
     \<lparr>loop_messages = [HumanMessage ''What causes climate change?''],
      userInput = ''What causes climate change?'',
      nextAgent = ''research_agent''\<rparr>"

definition request :: "string \<Rightarrow> int \<Rightarrow> FeatureRequest" where
  "request name created =
     \<lparr>title = name, description = [], userGoal = [], exampleUseCase = [], timestamp = created\<rparr>"

text \<open>The same chains with a supervisor that names the social-summary agent.\<close>

definition stubbornRedditChains :: "unit Chains" where
  "stubbornRedditChains =
     stubbornChains\<lparr>supervisorChain := (\<lambda>w ms. (Some ''gme_reddit_agent'', w))\<rparr>"

definition sampleRequests :: "FeatureRequest list" where
  "sampleRequests = [request ''a'' 5, request ''b'' 9, request ''c'' 5, request ''d'' 7]"

text \<open>The state the supervisor leaves when the oracle names \<open>agent\<close>.\<close>

definition routedState :: "string \<Rightarrow> string \<Rightarrow> GraphState" where
  "routedState agent userMessage =
     fst (personalAssistantAgent (fixedReplyEnv (Some agent)) () (handlerState userMessage))"

section \<open>The router's decision\<close>

text \<open>
  Claim C1. On every conversation state the router returns the supervisor's own
  identifier when \<open>taskCompleted\<close> is set, and the edge after the supervisor then
  leads to END; otherwise it returns \<open>currentAgent\<close> unchanged.
\<close>

theorem router_decision:
  "(taskCompleted (agentState s) \<longrightarrow>
      router s = ''PersonalAssistant'' \<and> conditionalEdges (router s) = Some END \<and>
      nextTarget PersonalAssistant s = Some END) \<and>
   (\<not> taskCompleted (agentState s) \<longrightarrow> router s = currentAgent (agentState s))"
  by (simp add: router_def conditionalEdges_def nextTarget_def)

theorem router_decision_witness:
  "router (createInitialState\<lparr>agentState :=
      (agentState createInitialState)\<lparr>taskCompleted := True, currentAgent := ''DeepResearchAgent''\<rparr>\<rparr>)
     = ''PersonalAssistant'' \<and>
   router (createInitialState\<lparr>agentState :=
      (agentState createInitialState)\<lparr>currentAgent := ''DeepResearchAgent''\<rparr>\<rparr>)
     = ''DeepResearchAgent''"
  using router_decision [of "createInitialState\<lparr>agentState :=
      (agentState createInitialState)\<lparr>taskCompleted := True, currentAgent := ''DeepResearchAgent''\<rparr>\<rparr>"]
    router_decision [of "createInitialState\<lparr>agentState :=
      (agentState createInitialState)\<lparr>currentAgent := ''DeepResearchAgent''\<rparr>\<rparr>"]
  by (simp add: createInitialState_def)

text \<open>
  Claim C7. The router reads two fields only: two states that agree on \<open>taskCompleted\<close>
  and on \<open>currentAgent\<close> get the same next node, whatever their messages and artifacts.
\<close>

theorem router_deterministic:
  "taskCompleted (agentState s) = taskCompleted (agentState s') \<Longrightarrow>
   currentAgent (agentState s) = currentAgent (agentState s') \<Longrightarrow>
   router s = router s'"
  by (simp add: router_def)

theorem router_deterministic_witness:
  "router (createInitialState\<lparr>messages := []\<rparr>) = router createInitialState \<and>
   createInitialState\<lparr>messages := []\<rparr> \<noteq> createInitialState"
  using router_deterministic [of "createInitialState\<lparr>messages := []\<rparr>" createInitialState]
  by (simp add: createInitialState_def)

section \<open>Oracle answers outside the node identifiers\<close>

text \<open>
  The supervisor of the single-file assistant checks the oracle's answer against
  \<open>validNodes\<close>: what it stores always has a destination, and an answer outside the list
  becomes FINISH, which the edges send to END.
\<close>

lemma supervisorEdges_valid: "name \<in> set validNodes \<Longrightarrow> supervisorEdges name \<noteq> None"
  unfolding validNodes_def supervisorEdges_def by fastforce

lemma supervisorNode_result:
  "supervisorChain env w (loop_messages state) = (Some reply, w') \<Longrightarrow>
   supervisorNode env w state =
     (Some (emptyUpdate\<lparr>new_nextAgent :=
        Some (if trim reply \<in> set validNodes then trim reply else ''FINISH'')\<rparr>), w')"
  unfolding supervisorNode_def Let_def by simp

lemma supervisorNode_fallback:
  "supervisorChain env w (loop_messages state) = (Some reply, w') \<Longrightarrow>
   trim reply \<notin> set validNodes \<Longrightarrow>
   loopStep env (At supervisor state q w) = Ended (state\<lparr>nextAgent := ''FINISH''\<rparr>) q w'"
  by (simp add: supervisorNode_result stateChannels_def emptyUpdate_def supervisorEdges_def)

lemma supervisorNode_never_arbitrary:
  "supervisorChain env w (loop_messages state) = (Some reply, w') \<Longrightarrow>
   \<exists>name. supervisorNode env w state = (Some (emptyUpdate\<lparr>new_nextAgent := Some name\<rparr>), w') \<and>
          name \<in> set validNodes \<and> supervisorEdges name \<noteq> None"
proof -
  assume call: "supervisorChain env w (loop_messages state) = (Some reply, w')"
  let ?name = "if trim reply \<in> set validNodes then trim reply else ''FINISH''"
  have "?name \<in> set validNodes"
    by (simp add: validNodes_def)
  then show ?thesis
    using supervisorNode_result [OF call] supervisorEdges_valid [of ?name] by blast
qed

text \<open>
  Claim C2. The supervisor of the modular assistant does no such check. With an oracle
  that answers \<open>WeatherAgent\<close>, the supervisor stores that text as \<open>currentAgent\<close>, the
  router returns it, and the routing table has no destination for it: the pass does not
  reach END.
\<close>

theorem unvalidated_agent_name:
  "fst (personalAssistantAgent (fixedReplyEnv (Some ''WeatherAgent'')) ()
          (handlerState ''Will it rain tomorrow?'')) =
     \<lparr>messages = messages (handlerState ''Will it rain tomorrow?'') @
        [\<lparr>role = Assistant, content = ''How can I assist you today?'',
          agentName = Some ''PersonalAssistant''\<rparr>],
      agentState = (agentState (handlerState ''Will it rain tomorrow?''))
        \<lparr>currentAgent := ''WeatherAgent''\<rparr>\<rparr> \<and>
   router (routedState ''WeatherAgent'' ''Will it rain tomorrow?'') = ''WeatherAgent'' \<and>
   conditionalEdges ''WeatherAgent'' = None \<and>
   graphStep (fixedReplyEnv (Some ''WeatherAgent''))
       (Running PersonalAssistant (handlerState ''Will it rain tomorrow?'') [] ()) =
     NoDestination ''WeatherAgent'' (routedState ''WeatherAgent'' ''Will it rain tomorrow?'') [] ()"
  by code_simp

section \<open>The tool loops and the recursion limit\<close>

lemma toolCallsOf_last:
  "toolCallsOf ms =
     (if ms = [] then None
      else case last ms of AIMessage reply calls \<Rightarrow> Some calls | _ \<Rightarrow> None)"
  by (cases ms) simp_all

lemma toolCallsOf_snoc: "toolCallsOf (ms @ [AIMessage reply calls]) = Some calls"
  by (simp add: toolCallsOf_last)

lemma length_runCalls_aux:
  "runCalls run w calls = (results, w') \<Longrightarrow> length results = length calls"
  by (induction calls arbitrary: w results w') (auto split: prod.splits)

lemma agent_asks:
  assumes "alwaysRequestsTool runnable"
  shows "\<exists>reply c cs w'. agentNode runnable w state =
           (Some (emptyUpdate\<lparr>new_messages := Some [AIMessage reply (c # cs)]\<rparr>), w')"
proof -
  obtain reply c cs w' where "runnable w (loop_messages state) = (Some (reply, c # cs), w')"
    using assms unfolding alwaysRequestsTool_def by blast
  then have "agentNode runnable w state =
           (Some (emptyUpdate\<lparr>new_messages := Some [AIMessage reply (c # cs)]\<rparr>), w')"
    by (simp add: agentNode_def)
  then show ?thesis by blast
qed

text \<open>One round of a loop: the agent asks, the tool node answers, the agent is next.\<close>

lemma research_round:
  assumes "alwaysRequestsTool (researchAgentRunnable env)"
  shows "\<exists>state' w'. loopStep env (loopStep env (At research_agent state q w)) =
            At research_agent state' q w' \<and>
          length (loop_messages state) + 2 \<le> length (loop_messages state')"
proof -
  obtain reply c cs w1 where agent: "researchAgentNode env w state =
      (Some (emptyUpdate\<lparr>new_messages := Some [AIMessage reply (c # cs)]\<rparr>), w1)"
    using agent_asks [OF assms, of w state] unfolding researchAgentNode_def by blast
  let ?s1 = "stateChannels state (emptyUpdate\<lparr>new_messages := Some [AIMessage reply (c # cs)]\<rparr>)"
  have msgs1: "loop_messages ?s1 = loop_messages state @ [AIMessage reply (c # cs)]"
    by (simp add: stateChannels_def emptyUpdate_def)
  have cond: "toolsCondition ?s1 = ''tools''"
    unfolding toolsCondition_def msgs1 toolCallsOf_snoc by simp
  have step1: "loopStep env (At research_agent state q w) = At research_tool_node ?s1 q w1"
    using agent cond by (simp add: Let_def researchEdges_def)
  obtain results w2 where run: "runCalls (runResearchTool env) w1 (c # cs) = (results, w2)"
    by (cases "runCalls (runResearchTool env) w1 (c # cs)") auto
  have len: "length results = Suc (length cs)"
    using length_runCalls_aux [OF run] by simp
  have tool: "toolNode (runResearchTool env) w1 ?s1 =
      (Some (emptyUpdate\<lparr>new_messages := Some results\<rparr>), w2)"
    unfolding toolNode_def msgs1 toolCallsOf_snoc using run by simp
  let ?s2 = "stateChannels ?s1 (emptyUpdate\<lparr>new_messages := Some results\<rparr>)"
  have step2: "loopStep env (At research_tool_node ?s1 q w1) = At research_agent ?s2 q w2"
    using tool by simp
  have "length (loop_messages state) + 2 \<le> length (loop_messages ?s2)"
    using len by (simp add: stateChannels_def emptyUpdate_def)
  with step1 step2 show ?thesis by auto
qed

lemma reddit_round:
  assumes "alwaysRequestsTool (redditAgentRunnable env)"
  shows "\<exists>state' w'. loopStep env (loopStep env (At gme_reddit_agent state q w)) =
            At gme_reddit_agent state' q w' \<and>
          length (loop_messages state) + 2 \<le> length (loop_messages state')"
proof -
  obtain reply c cs w1 where agent: "gmeRedditAgentNode env w state =
      (Some (emptyUpdate\<lparr>new_messages := Some [AIMessage reply (c # cs)]\<rparr>), w1)"
    using agent_asks [OF assms, of w state] unfolding gmeRedditAgentNode_def by blast
  let ?s1 = "stateChannels state (emptyUpdate\<lparr>new_messages := Some [AIMessage reply (c # cs)]\<rparr>)"
  have msgs1: "loop_messages ?s1 = loop_messages state @ [AIMessage reply (c # cs)]"
    by (simp add: stateChannels_def emptyUpdate_def)
  have cond: "toolsCondition ?s1 = ''tools''"
    unfolding toolsCondition_def msgs1 toolCallsOf_snoc by simp
  have step1: "loopStep env (At gme_reddit_agent state q w) = At reddit_tool_node ?s1 q w1"
    using agent cond by (simp add: Let_def redditEdges_def)
  obtain results w2 where run: "runCalls (runRedditTool env) w1 (c # cs) = (results, w2)"
    by (cases "runCalls (runRedditTool env) w1 (c # cs)") auto
  have len: "length results = Suc (length cs)"
    using length_runCalls_aux [OF run] by simp
  have tool: "toolNode (runRedditTool env) w1 ?s1 =
      (Some (emptyUpdate\<lparr>new_messages := Some results\<rparr>), w2)"
    unfolding toolNode_def msgs1 toolCallsOf_snoc using run by simp
  let ?s2 = "stateChannels ?s1 (emptyUpdate\<lparr>new_messages := Some results\<rparr>)"
  have step2: "loopStep env (At reddit_tool_node ?s1 q w1) = At gme_reddit_agent ?s2 q w2"
    using tool by simp
  have "length (loop_messages state) + 2 \<le> length (loop_messages ?s2)"
    using len by (simp add: stateChannels_def emptyUpdate_def)
  with step1 step2 show ?thesis by auto
qed

lemma research_rounds:
  assumes "alwaysRequestsTool (researchAgentRunnable env)"
  shows "\<exists>state' w'. loopSteps env (2 * n) (At research_agent state q w) =
            At research_agent state' q w' \<and>
          length (loop_messages state) + 2 * n \<le> length (loop_messages state')"
proof (induction n)
  case 0
  show ?case by (simp add: loopSteps_def)
next
  case (Suc n)
  then obtain s1 w1 where
    n: "loopSteps env (2 * n) (At research_agent state q w) = At research_agent s1 q w1"
    and len1: "length (loop_messages state) + 2 * n \<le> length (loop_messages s1)"
    by blast
  obtain s2 w2 where
    r: "loopStep env (loopStep env (At research_agent s1 q w1)) = At research_agent s2 q w2"
    and len2: "length (loop_messages s1) + 2 \<le> length (loop_messages s2)"
    using research_round [OF assms, of s1 q w1] by blast
  have "loopSteps env (2 * Suc n) (At research_agent state q w) =
        loopStep env (loopStep env (loopSteps env (2 * n) (At research_agent state q w)))"
    by (simp add: loopSteps_def)
  with n r have "loopSteps env (2 * Suc n) (At research_agent state q w) = At research_agent s2 q w2"
    by simp
  moreover have "length (loop_messages state) + 2 * Suc n \<le> length (loop_messages s2)"
    using len1 len2 by simp
  ultimately show ?case by blast
qed

lemma reddit_rounds:
  assumes "alwaysRequestsTool (redditAgentRunnable env)"
  shows "\<exists>state' w'. loopSteps env (2 * n) (At gme_reddit_agent state q w) =
            At gme_reddit_agent state' q w' \<and>
          length (loop_messages state) + 2 * n \<le> length (loop_messages state')"
proof (induction n)
  case 0
  show ?case by (simp add: loopSteps_def)
next
  case (Suc n)
  then obtain s1 w1 where
    n: "loopSteps env (2 * n) (At gme_reddit_agent state q w) = At gme_reddit_agent s1 q w1"
    and len1: "length (loop_messages state) + 2 * n \<le> length (loop_messages s1)"
    by blast
  obtain s2 w2 where
    r: "loopStep env (loopStep env (At gme_reddit_agent s1 q w1)) = At gme_reddit_agent s2 q w2"
    and len2: "length (loop_messages s1) + 2 \<le> length (loop_messages s2)"
    using reddit_round [OF assms, of s1 q w1] by blast
  have "loopSteps env (2 * Suc n) (At gme_reddit_agent state q w) =
        loopStep env (loopStep env (loopSteps env (2 * n) (At gme_reddit_agent state q w)))"
    by (simp add: loopSteps_def)
  with n r have "loopSteps env (2 * Suc n) (At gme_reddit_agent state q w) = At gme_reddit_agent s2 q w2"
    by simp
  moreover have "length (loop_messages state) + 2 * Suc n \<le> length (loop_messages s2)"
    using len1 len2 by simp
  ultimately show ?case by blast
qed

lemma research_ask_step:
  assumes "alwaysRequestsTool (researchAgentRunnable env)"
  shows "\<exists>state' w'. loopStep env (At research_agent state q w) = At research_tool_node state' q w' \<and>
          length (loop_messages state') = length (loop_messages state) + 1"
proof -
  obtain reply c cs w1 where agent: "researchAgentNode env w state =
      (Some (emptyUpdate\<lparr>new_messages := Some [AIMessage reply (c # cs)]\<rparr>), w1)"
    using agent_asks [OF assms, of w state] unfolding researchAgentNode_def by blast
  let ?s1 = "stateChannels state (emptyUpdate\<lparr>new_messages := Some [AIMessage reply (c # cs)]\<rparr>)"
  have msgs1: "loop_messages ?s1 = loop_messages state @ [AIMessage reply (c # cs)]"
    by (simp add: stateChannels_def emptyUpdate_def)
  have cond: "toolsCondition ?s1 = ''tools''"
    unfolding toolsCondition_def msgs1 toolCallsOf_snoc by simp
  have "loopStep env (At research_agent state q w) = At research_tool_node ?s1 q w1"
    using agent cond by (simp add: Let_def researchEdges_def)
  then show ?thesis using msgs1 by auto
qed

text \<open>Any number of steps: an even number ends at the agent, an odd one at its tool node.\<close>

lemma research_any_steps:
  assumes ask: "alwaysRequestsTool (researchAgentRunnable env)"
  shows "\<exists>node state' w'.
           loopSteps env k (At research_agent state q w) = At node state' q w' \<and>
           node \<in> {research_agent, research_tool_node} \<and>
           length (loop_messages state) + k \<le> length (loop_messages state')"
proof -
  define n where "n = k div 2"
  have k: "k = 2 * n \<or> k = Suc (2 * n)"
    unfolding n_def by arith
  obtain s1 w1 where
    even: "loopSteps env (2 * n) (At research_agent state q w) = At research_agent s1 q w1"
    and len1: "length (loop_messages state) + 2 * n \<le> length (loop_messages s1)"
    using research_rounds [OF ask, of n state q w] by blast
  show ?thesis
  proof (cases "k = 2 * n")
    case True
    then show ?thesis using even len1 by simp
  next
    case False
    then have odd: "k = Suc (2 * n)" using k by simp
    obtain s2 w2 where
      step: "loopStep env (At research_agent s1 q w1) = At research_tool_node s2 q w2"
      and len2: "length (loop_messages s2) = length (loop_messages s1) + 1"
      using research_ask_step [OF ask, of s1 q w1] by blast
    have "loopSteps env k (At research_agent state q w) =
          loopStep env (loopSteps env (2 * n) (At research_agent state q w))"
      unfolding odd by (simp add: loopSteps_def)
    then have "loopSteps env k (At research_agent state q w) = At research_tool_node s2 q w2"
      using even step by simp
    then show ?thesis using len1 len2 odd by simp
  qed
qed

lemma reddit_ask_step:
  assumes "alwaysRequestsTool (redditAgentRunnable env)"
  shows "\<exists>state' w'. loopStep env (At gme_reddit_agent state q w) = At reddit_tool_node state' q w' \<and>
          length (loop_messages state') = length (loop_messages state) + 1"
proof -
  obtain reply c cs w1 where agent: "gmeRedditAgentNode env w state =
      (Some (emptyUpdate\<lparr>new_messages := Some [AIMessage reply (c # cs)]\<rparr>), w1)"
    using agent_asks [OF assms, of w state] unfolding gmeRedditAgentNode_def by blast
  let ?s1 = "stateChannels state (emptyUpdate\<lparr>new_messages := Some [AIMessage reply (c # cs)]\<rparr>)"
  have msgs1: "loop_messages ?s1 = loop_messages state @ [AIMessage reply (c # cs)]"
    by (simp add: stateChannels_def emptyUpdate_def)
  have cond: "toolsCondition ?s1 = ''tools''"
    unfolding toolsCondition_def msgs1 toolCallsOf_snoc by simp
  have "loopStep env (At gme_reddit_agent state q w) = At reddit_tool_node ?s1 q w1"
    using agent cond by (simp add: Let_def redditEdges_def)
  then show ?thesis using msgs1 by auto
qed

text \<open>Any number of steps: an even number ends at the agent, an odd one at its tool node.\<close>

lemma reddit_any_steps:
  assumes ask: "alwaysRequestsTool (redditAgentRunnable env)"
  shows "\<exists>node state' w'.
           loopSteps env k (At gme_reddit_agent state q w) = At node state' q w' \<and>
           node \<in> {gme_reddit_agent, reddit_tool_node} \<and>
           length (loop_messages state) + k \<le> length (loop_messages state')"
proof -
  define n where "n = k div 2"
  have k: "k = 2 * n \<or> k = Suc (2 * n)"
    unfolding n_def by arith
  obtain s1 w1 where
    even: "loopSteps env (2 * n) (At gme_reddit_agent state q w) = At gme_reddit_agent s1 q w1"
    and len1: "length (loop_messages state) + 2 * n \<le> length (loop_messages s1)"
    using reddit_rounds [OF ask, of n state q w] by blast
  show ?thesis
  proof (cases "k = 2 * n")
    case True
    then show ?thesis using even len1 by simp
  next
    case False
    then have odd: "k = Suc (2 * n)" using k by simp
    obtain s2 w2 where
      step: "loopStep env (At gme_reddit_agent s1 q w1) = At reddit_tool_node s2 q w2"
      and len2: "length (loop_messages s2) = length (loop_messages s1) + 1"
      using reddit_ask_step [OF ask, of s1 q w1] by blast
    have "loopSteps env k (At gme_reddit_agent state q w) =
          loopStep env (loopSteps env (2 * n) (At gme_reddit_agent state q w))"
      unfolding odd by (simp add: loopSteps_def)
    then have "loopSteps env k (At gme_reddit_agent state q w) = At reddit_tool_node s2 q w2"
      using even step by simp
    then show ?thesis using len1 len2 odd by simp
  qed
qed

text \<open>
  The supervisor's step when its chain names a node of the path map, and a run that
  starts with it.
\<close>

lemma supervisor_names:
  assumes chain: "supervisorChain env w (loop_messages state) = (Some reply, w1)"
    and name: "trim reply = agent"
    and edge: "supervisorEdges agent = Some (Goto node)"
  shows "loopStep env (At supervisor state q w) = At node (state\<lparr>nextAgent := agent\<rparr>) q w1"
proof -
  have valid: "agent \<in> set validNodes"
    using edge unfolding supervisorEdges_def validNodes_def by (simp split: if_splits)
  have node: "supervisorNode env w state = (Some (emptyUpdate\<lparr>new_nextAgent := Some agent\<rparr>), w1)"
    using chain name valid by (simp add: supervisorNode_def Let_def)
  have merged: "stateChannels state (emptyUpdate\<lparr>new_nextAgent := Some agent\<rparr>) =
      state\<lparr>nextAgent := agent\<rparr>"
    by (simp add: stateChannels_def emptyUpdate_def)
  show ?thesis
    using node edge by (simp add: merged Let_def)
qed

lemma loopSteps_Suc: "loopSteps env (Suc k) run = loopSteps env k (loopStep env run)"
  by (simp add: loopSteps_def funpow_swap1)

lemma turnInputs_start:
  "stateChannels channelDefaults (turnInputs userText history) =
     \<lparr>loop_messages = history @ [HumanMessage userText], userInput = userText, nextAgent = []\<rparr>"
  by (simp add: stateChannels_def channelDefaults_def turnInputs_def emptyUpdate_def)

lemma invoke_in_loop:
  assumes "graphRun env recursionLimit inputs q w = At node state q' w'"
  shows "invoke env inputs q w = (Inl GraphRecursionError, q', w')"
  using assms by (simp add: invoke_def)

lemma turn_on_error:
  assumes "invoke env (turnInputs userText history) q w = (Inl err, q', w')"
    and "toLowerCase userText \<noteq> ''exit''"
  shows "conversationTurn env userText history q w =
           (Reply turnErrorLine (history @ [HumanMessage userText]), q', w')"
  using assms by (simp add: conversationTurn_def)

lemma research_turn:
  assumes ask: "alwaysRequestsTool (researchAgentRunnable env)"
    and chain: "supervisorChain env w (history @ [HumanMessage userText]) = (Some reply, w1)"
    and name: "trim reply = ''research_agent''"
  shows "\<exists>node state' w'.
           graphRun env (Suc k) (turnInputs userText history) q w = At node state' q w' \<and>
           node \<in> {research_agent, research_tool_node} \<and>
           length history + Suc k \<le> length (loop_messages state')"
proof -
  let ?start = "stateChannels channelDefaults (turnInputs userText history)"
  have msgs: "loop_messages ?start = history @ [HumanMessage userText]"
    unfolding turnInputs_start by simp
  have edge: "supervisorEdges ''research_agent'' = Some (Goto research_agent)"
    by (simp add: supervisorEdges_def)
  have first: "loopStep env (At supervisor ?start q w) =
      At research_agent (?start\<lparr>nextAgent := ''research_agent''\<rparr>) q w1"
    using supervisor_names [OF _ name edge, of env w ?start w1 q] chain msgs by simp
  obtain node state' w' where
    run: "loopSteps env k (At research_agent (?start\<lparr>nextAgent := ''research_agent''\<rparr>) q w1) =
            At node state' q w'"
    and node: "node \<in> {research_agent, research_tool_node}"
    and len: "length (loop_messages (?start\<lparr>nextAgent := ''research_agent''\<rparr>)) + k \<le>
            length (loop_messages state')"
    using research_any_steps [OF ask, of k "?start\<lparr>nextAgent := ''research_agent''\<rparr>" q w1]
    by blast
  have "graphRun env (Suc k) (turnInputs userText history) q w = At node state' q w'"
    unfolding graphRun_def loopSteps_Suc first run ..
  moreover have "length history + Suc k \<le> length (loop_messages state')"
    using len msgs by simp
  ultimately show ?thesis using node by blast
qed

lemma reddit_turn:
  assumes ask: "alwaysRequestsTool (redditAgentRunnable env)"
    and chain: "supervisorChain env w (history @ [HumanMessage userText]) = (Some reply, w1)"
    and name: "trim reply = ''gme_reddit_agent''"
  shows "\<exists>node state' w'.
           graphRun env (Suc k) (turnInputs userText history) q w = At node state' q w' \<and>
           node \<in> {gme_reddit_agent, reddit_tool_node} \<and>
           length history + Suc k \<le> length (loop_messages state')"
proof -
  let ?start = "stateChannels channelDefaults (turnInputs userText history)"
  have msgs: "loop_messages ?start = history @ [HumanMessage userText]"
    unfolding turnInputs_start by simp
  have edge: "supervisorEdges ''gme_reddit_agent'' = Some (Goto gme_reddit_agent)"
    by (simp add: supervisorEdges_def)
  have first: "loopStep env (At supervisor ?start q w) =
      At gme_reddit_agent (?start\<lparr>nextAgent := ''gme_reddit_agent''\<rparr>) q w1"
    using supervisor_names [OF _ name edge, of env w ?start w1 q] chain msgs by simp
  obtain node state' w' where
    run: "loopSteps env k (At gme_reddit_agent (?start\<lparr>nextAgent := ''gme_reddit_agent''\<rparr>) q w1) =
            At node state' q w'"
    and node: "node \<in> {gme_reddit_agent, reddit_tool_node}"
    and len: "length (loop_messages (?start\<lparr>nextAgent := ''gme_reddit_agent''\<rparr>)) + k \<le>
            length (loop_messages state')"
    using reddit_any_steps [OF ask, of k "?start\<lparr>nextAgent := ''gme_reddit_agent''\<rparr>" q w1]
    by blast
  have "graphRun env (Suc k) (turnInputs userText history) q w = At node state' q w'"
    unfolding graphRun_def loopSteps_Suc first run ..
  moreover have "length history + Suc k \<le> length (loop_messages state')"
    using len msgs by simp
  ultimately show ?thesis using node by blast
qed

text \<open>
  What a turn comes to when the run is in a tool loop at every step from the first to
  the limit: the invocation raises the recursion error with the queue as it was, and
  the turn ends with the apology of the \<open>catch\<close> branch.
\<close>

lemma looping_turn:
  assumes run: "\<And>k. \<exists>node state' w'.
        graphRun env (Suc k) (turnInputs userText history) q w = At node state' q w' \<and>
        node \<in> {agent, toolNode'} \<and> length history + Suc k \<le> length (loop_messages state')"
    and go: "toLowerCase userText \<noteq> ''exit''"
  shows "(1 \<le> k \<and> k \<le> recursionLimit \<longrightarrow>
            loopNodeOf (graphRun env k (turnInputs userText history) q w) \<in>
              {Some agent, Some toolNode'} \<and>
            length history + k \<le>
              length (loop_messages (loopStateOf (graphRun env k (turnInputs userText history) q w)))) \<and>
         fst (invoke env (turnInputs userText history) q w) = Inl GraphRecursionError \<and>
         fst (snd (invoke env (turnInputs userText history) q w)) = q \<and>
         fst (conversationTurn env userText history q w) =
           Reply turnErrorLine (history @ [HumanMessage userText])"
proof -
  have steps: "loopNodeOf (graphRun env k (turnInputs userText history) q w) \<in>
              {Some agent, Some toolNode'} \<and>
            length history + k \<le>
              length (loop_messages (loopStateOf (graphRun env k (turnInputs userText history) q w)))"
    if pos: "1 \<le> k" for k
  proof -
    obtain j where j: "k = Suc j" using pos by (cases k) auto
    obtain node state' w' where
      "graphRun env (Suc j) (turnInputs userText history) q w = At node state' q w'"
      "node \<in> {agent, toolNode'}" "length history + Suc j \<le> length (loop_messages state')"
      using run [of j] by blast
    then show ?thesis unfolding j by auto
  qed
  have limit: "recursionLimit = Suc 24"
    by (simp add: recursionLimit_def)
  obtain node state' w' where
    at: "graphRun env recursionLimit (turnInputs userText history) q w = At node state' q w'"
    unfolding limit using run [of 24] by blast
  have inv: "invoke env (turnInputs userText history) q w = (Inl GraphRecursionError, q, w')"
    using invoke_in_loop [OF at] .
  have turn: "conversationTurn env userText history q w =
      (Reply turnErrorLine (history @ [HumanMessage userText]), q, w')"
    using turn_on_error [OF inv go] .
  show ?thesis
    using steps inv turn by simp
qed

text \<open>
  Claim C3, as the code has it. The two tool loops carry no cap of their own: what
  bounds them is the recursion limit of the invocation, the library's default of 25
  node runs. Take an oracle that asks for a tool on every call, a user message other
  than \<open>exit\<close>, and a supervisor that names the worker on its first call. At every step
  \<open>k\<close> from the first to the limit the run is at the agent node or at its tool node,
  with at least \<open>k\<close> more messages than the conversation had. So the invocation raises
  the recursion error, with the queue as it was, and the turn ends with the apology of
  \<open>runConversation\<close>, which keeps the conversation with the user's message added.
\<close>

theorem tool_loop_uncapped:
  "(alwaysRequestsTool (researchAgentRunnable env) \<and>
    supervisorChain env w (history @ [HumanMessage userText]) = (Some reply, w1) \<and>
    trim reply = ''research_agent'' \<and> toLowerCase userText \<noteq> ''exit'' \<longrightarrow>
      (1 \<le> k \<and> k \<le> recursionLimit \<longrightarrow>
         loopNodeOf (graphRun env k (turnInputs userText history) q w) \<in>
           {Some research_agent, Some research_tool_node} \<and>
         length history + k \<le>
           length (loop_messages (loopStateOf (graphRun env k (turnInputs userText history) q w)))) \<and>
      fst (invoke env (turnInputs userText history) q w) = Inl GraphRecursionError \<and>
      fst (snd (invoke env (turnInputs userText history) q w)) = q \<and>
      fst (conversationTurn env userText history q w) =
        Reply turnErrorLine (history @ [HumanMessage userText])) \<and>
   (alwaysRequestsTool (redditAgentRunnable env) \<and>
    supervisorChain env w (history @ [HumanMessage userText]) = (Some reply, w1) \<and>
    trim reply = ''gme_reddit_agent'' \<and> toLowerCase userText \<noteq> ''exit'' \<longrightarrow>
      (1 \<le> k \<and> k \<le> recursionLimit \<longrightarrow>
         loopNodeOf (graphRun env k (turnInputs userText history) q w) \<in>
           {Some gme_reddit_agent, Some reddit_tool_node} \<and>
         length history + k \<le>
           length (loop_messages (loopStateOf (graphRun env k (turnInputs userText history) q w)))) \<and>
      fst (invoke env (turnInputs userText history) q w) = Inl GraphRecursionError \<and>
      fst (snd (invoke env (turnInputs userText history) q w)) = q \<and>
      fst (conversationTurn env userText history q w) =
        Reply turnErrorLine (history @ [HumanMessage userText]))"
proof -
  have research: "(1 \<le> k \<and> k \<le> recursionLimit \<longrightarrow>
         loopNodeOf (graphRun env k (turnInputs userText history) q w) \<in>
           {Some research_agent, Some research_tool_node} \<and>
         length history + k \<le>
           length (loop_messages (loopStateOf (graphRun env k (turnInputs userText history) q w)))) \<and>
      fst (invoke env (turnInputs userText history) q w) = Inl GraphRecursionError \<and>
      fst (snd (invoke env (turnInputs userText history) q w)) = q \<and>
      fst (conversationTurn env userText history q w) =
        Reply turnErrorLine (history @ [HumanMessage userText])"
    if ask: "alwaysRequestsTool (researchAgentRunnable env)"
      and chain: "supervisorChain env w (history @ [HumanMessage userText]) = (Some reply, w1)"
      and name: "trim reply = ''research_agent''"
      and go: "toLowerCase userText \<noteq> ''exit''"
    using looping_turn [of env userText history q w research_agent research_tool_node k,
        OF research_turn [OF ask chain name] go] .
  have reddit: "(1 \<le> k \<and> k \<le> recursionLimit \<longrightarrow>
         loopNodeOf (graphRun env k (turnInputs userText history) q w) \<in>
           {Some gme_reddit_agent, Some reddit_tool_node} \<and>
         length history + k \<le>
           length (loop_messages (loopStateOf (graphRun env k (turnInputs userText history) q w)))) \<and>
      fst (invoke env (turnInputs userText history) q w) = Inl GraphRecursionError \<and>
      fst (snd (invoke env (turnInputs userText history) q w)) = q \<and>
      fst (conversationTurn env userText history q w) =
        Reply turnErrorLine (history @ [HumanMessage userText])"
    if ask: "alwaysRequestsTool (redditAgentRunnable env)"
      and chain: "supervisorChain env w (history @ [HumanMessage userText]) = (Some reply, w1)"
      and name: "trim reply = ''gme_reddit_agent''"
      and go: "toLowerCase userText \<noteq> ''exit''"
    using looping_turn [of env userText history q w gme_reddit_agent reddit_tool_node k,
        OF reddit_turn [OF ask chain name] go] .
  show ?thesis
    using research reddit by blast
qed

theorem tool_loop_uncapped_witness:
  "alwaysRequestsTool (researchAgentRunnable stubbornChains) \<and>
   supervisorChain stubbornChains () ([] @ [HumanMessage ''What causes climate change?'']) =
     (Some ''research_agent'', ()) \<and>
   trim ''research_agent'' = ''research_agent'' \<and>
   toLowerCase ''What causes climate change?'' \<noteq> ''exit'' \<and>
   (1::nat) \<le> 25 \<and> 25 \<le> recursionLimit \<and>
   loopNodeOf (graphRun stubbornChains 25 (turnInputs ''What causes climate change?'' []) [] ()) \<in>
     {Some research_agent, Some research_tool_node} \<and>
   25 \<le> length (loop_messages (loopStateOf
          (graphRun stubbornChains 25 (turnInputs ''What causes climate change?'' []) [] ()))) \<and>
   fst (invoke stubbornChains (turnInputs ''What causes climate change?'' []) [] ()) =
     Inl GraphRecursionError \<and>
   fst (snd (invoke stubbornChains (turnInputs ''What causes climate change?'' []) [] ())) = [] \<and>
   fst (conversationTurn stubbornChains ''What causes climate change?'' [] [] ()) =
     Reply ''Assistant: Sorry, I encountered an error. Please try again.''
       [HumanMessage ''What causes climate change?''] \<and>
   alwaysRequestsTool (redditAgentRunnable stubbornRedditChains) \<and>
   supervisorChain stubbornRedditChains () ([] @ [HumanMessage ''How is GME doing on Reddit?'']) =
     (Some ''gme_reddit_agent'', ()) \<and>
   trim ''gme_reddit_agent'' = ''gme_reddit_agent'' \<and>
   toLowerCase ''How is GME doing on Reddit?'' \<noteq> ''exit'' \<and>
   loopNodeOf (graphRun stubbornRedditChains 25 (turnInputs ''How is GME doing on Reddit?'' []) [] ()) \<in>
     {Some gme_reddit_agent, Some reddit_tool_node} \<and>
   fst (invoke stubbornRedditChains (turnInputs ''How is GME doing on Reddit?'' []) [] ()) =
     Inl GraphRecursionError \<and>
   fst (conversationTurn stubbornRedditChains ''How is GME doing on Reddit?'' [] [] ()) =
     Reply ''Assistant: Sorry, I encountered an error. Please try again.''
       [HumanMessage ''How is GME doing on Reddit?'']"
proof -
  let ?u = "''What causes climate change?''"
  let ?v = "''How is GME doing on Reddit?''"
  have ask1: "alwaysRequestsTool (researchAgentRunnable stubbornChains)"
    by (simp add: alwaysRequestsTool_def stubbornChains_def)
  have ask2: "alwaysRequestsTool (redditAgentRunnable stubbornRedditChains)"
    by (simp add: alwaysRequestsTool_def stubbornRedditChains_def stubbornChains_def)
  have chain1: "supervisorChain stubbornChains () ([] @ [HumanMessage ?u]) =
      (Some ''research_agent'', ())"
    by (simp add: stubbornChains_def)
  have chain2: "supervisorChain stubbornRedditChains () ([] @ [HumanMessage ?v]) =
      (Some ''gme_reddit_agent'', ())"
    by (simp add: stubbornRedditChains_def)
  have name1: "trim ''research_agent'' = ''research_agent''"
    by code_simp
  have name2: "trim ''gme_reddit_agent'' = ''gme_reddit_agent''"
    by code_simp
  have go1: "toLowerCase ?u \<noteq> ''exit''"
    by code_simp
  have go2: "toLowerCase ?v \<noteq> ''exit''"
    by code_simp
  have k: "(1::nat) \<le> 25 \<and> 25 \<le> recursionLimit"
    by (simp add: recursionLimit_def)
  have r1: "(loopNodeOf (graphRun stubbornChains 25 (turnInputs ?u []) [] ()) \<in>
        {Some research_agent, Some research_tool_node} \<and>
      length ([] :: BaseMessage list) + 25 \<le> length (loop_messages (loopStateOf
          (graphRun stubbornChains 25 (turnInputs ?u []) [] ())))) \<and>
      fst (invoke stubbornChains (turnInputs ?u []) [] ()) = Inl GraphRecursionError \<and>
      fst (snd (invoke stubbornChains (turnInputs ?u []) [] ())) = [] \<and>
      fst (conversationTurn stubbornChains ?u [] [] ()) =
        Reply turnErrorLine ([] @ [HumanMessage ?u])"
    using ask1 chain1 name1 go1 k
      tool_loop_uncapped [of stubbornChains "()" "[]" ?u "''research_agent''" "()" 25 "[]"]
    by blast
  have r2: "(loopNodeOf (graphRun stubbornRedditChains 25 (turnInputs ?v []) [] ()) \<in>
        {Some gme_reddit_agent, Some reddit_tool_node} \<and>
      length ([] :: BaseMessage list) + 25 \<le> length (loop_messages (loopStateOf
          (graphRun stubbornRedditChains 25 (turnInputs ?v []) [] ())))) \<and>
      fst (invoke stubbornRedditChains (turnInputs ?v []) [] ()) = Inl GraphRecursionError \<and>
      fst (snd (invoke stubbornRedditChains (turnInputs ?v []) [] ())) = [] \<and>
      fst (conversationTurn stubbornRedditChains ?v [] [] ()) =
        Reply turnErrorLine ([] @ [HumanMessage ?v])"
    using ask2 chain2 name2 go2 k
      tool_loop_uncapped [of stubbornRedditChains "()" "[]" ?v "''gme_reddit_agent''" "()" 25 "[]"]
    by blast
  have line: "turnErrorLine = ''Assistant: Sorry, I encountered an error. Please try again.''"
    by (simp add: turnErrorLine_def)
  have c1: "25 \<le> length (loop_messages (loopStateOf
          (graphRun stubbornChains 25 (turnInputs ?u []) [] ())))"
    using r1 by simp
  have c2: "fst (conversationTurn stubbornChains ?u [] [] ()) =
      Reply ''Assistant: Sorry, I encountered an error. Please try again.'' [HumanMessage ?u]"
    using r1 line by simp
  have c3: "fst (conversationTurn stubbornRedditChains ?v [] [] ()) =
      Reply ''Assistant: Sorry, I encountered an error. Please try again.'' [HumanMessage ?v]"
    using r2 line by simp
  show ?thesis
    using ask1 chain1 name1 go1 k r1 c1 c2 ask2 chain2 name2 go2 r2 c3 by blast
qed

text \<open>
  Seven rounds against such an oracle, one more than the cap the claim speaks of: after
  the supervisor and fourteen more node runs the run is at the research agent, fifteen
  messages long, the last one the seventh tool result, and no reply has been given.
\<close>

theorem tool_loop_counterexample:
  "loopNodeOf (graphRun stubbornChains 15 (turnInputs ''What causes climate change?'' []) [] ()) =
     Some research_agent \<and>
   length (loop_messages (loopStateOf
     (graphRun stubbornChains 15 (turnInputs ''What causes climate change?'' []) [] ()))) = 15 \<and>
   length (filter (\<lambda>m. m = ToolMessage ''no results'') (loop_messages (loopStateOf
     (graphRun stubbornChains 15 (turnInputs ''What causes climate change?'' []) [] ())))) = 7 \<and>
   last (loop_messages (loopStateOf
     (graphRun stubbornChains 15 (turnInputs ''What causes climate change?'' []) [] ()))) =
     ToolMessage ''no results''"
  by code_simp

section \<open>A failed parse in the feature-capture worker\<close>

text \<open>
  A pass arrives at a worker only from the supervisor, and only when the router
  answers with the worker's identifier on the state the worker then receives.
\<close>

lemma conditionalEdges_To: "conditionalEdges key = Some (To node) \<Longrightarrow> key = nodeName node"
  unfolding conditionalEdges_def nodeName_def by (auto split: if_splits)

lemma worker_entered_on_router:
  assumes step: "graphStep env (Running node s q w) = Running node' s' q' w'"
    and worker: "node' \<noteq> PersonalAssistant"
  shows "node = PersonalAssistant \<and> router s' = nodeName node'"
proof -
  obtain out q1 w1 where run: "runNode env node w q s = (out, q1, w1)"
    by (cases "runNode env node w q s") auto
  have target: "nextTarget node (mergeState s out) = Some (To node') \<and> s' = mergeState s out"
    using step run by (auto simp: Let_def split: option.splits Target.splits)
  have pa: "node = PersonalAssistant"
    using target worker by (cases node) (auto simp: nextTarget_def)
  then have "conditionalEdges (router s') = Some (To node')"
    using target by (simp add: nextTarget_def)
  then show ?thesis using pa conditionalEdges_To by blast
qed

lemma lastUserMessage_snoc_assistant:
  "lastUserMessage \<lparr>messages = messages s @ [\<lparr>role = Assistant, content = c, agentName = a\<rparr>],
                     agentState = st\<rparr> = lastUserMessage s"
  by (simp add: lastUserMessage_def)

lemma supervisor_sets_agent:
  assumes user: "lastUserMessage s = Some m"
    and call: "llm env w [(''system'', routerPrompt), (''user'', content m)] = (Some named, w')"
  shows "\<exists>s'. graphStep env (Running PersonalAssistant s q w) =
           (case conditionalEdges (trim named) of
              None \<Rightarrow> NoDestination (trim named) s' q w'
            | Some END \<Rightarrow> Finished s' q w'
            | Some (To node) \<Rightarrow> Running node s' q w') \<and>
         currentAgent (agentState s') = trim named \<and> router s' = trim named"
proof -
  let ?out = "\<lparr>messages = messages s @
                 [assistantMessage (getRoutingMessage (trim named) (content m)) ''PersonalAssistant''],
               agentState = (agentState s)\<lparr>currentAgent := trim named, taskCompleted := False\<rparr>\<rparr>"
  have node: "personalAssistantAgent env w s = (?out, w')"
    using user call by (simp add: personalAssistantAgent_def Let_def)
  have run: "runNode env PersonalAssistant w q s = (?out, q, w')"
    using node by (simp add: runNode_def)
  let ?s' = "mergeState s ?out"
  have agent: "agentState ?s' = (agentState s)\<lparr>currentAgent := trim named, taskCompleted := False\<rparr>"
    by (simp add: mergeState_def agentStateReducer_def)
  have r: "router ?s' = trim named"
    unfolding router_def agent by simp
  have target: "nextTarget PersonalAssistant ?s' = conditionalEdges (trim named)"
    unfolding nextTarget_def r by simp
  have step: "graphStep env (Running PersonalAssistant s q w) =
           (case conditionalEdges (trim named) of
              None \<Rightarrow> NoDestination (trim named) ?s' q w'
            | Some END \<Rightarrow> Finished ?s' q w'
            | Some (To node) \<Rightarrow> Running node ?s' q w')"
  proof -
    have "graphStep env (Running PersonalAssistant s q w) =
           (case nextTarget PersonalAssistant ?s' of
              None \<Rightarrow> NoDestination (router ?s') ?s' q w'
            | Some END \<Rightarrow> Finished ?s' q w'
            | Some (To node) \<Rightarrow> Running node ?s' q w')"
      by (simp only: graphStep.simps run prod.case Let_def)
    then show ?thesis
      unfolding target r .
  qed
  have cur: "currentAgent (agentState ?s') = trim named"
    unfolding agent by simp
  show ?thesis
    using step cur r by blast
qed

lemma supervisor_sets_router:
  assumes user: "lastUserMessage s = Some m"
    and call: "llm env w [(''system'', routerPrompt), (''user'', content m)] = (Some named, w')"
  shows "currentAgent (agentState (passState (graphStep env (Running PersonalAssistant s q w)))) =
           trim named \<and>
         router (passState (graphStep env (Running PersonalAssistant s q w))) = trim named"
proof -
  obtain s' where
    step: "graphStep env (Running PersonalAssistant s q w) =
           (case conditionalEdges (trim named) of
              None \<Rightarrow> NoDestination (trim named) s' q w'
            | Some END \<Rightarrow> Finished s' q w'
            | Some (To node) \<Rightarrow> Running node s' q w')"
    and cur: "currentAgent (agentState s') = trim named" and r: "router s' = trim named"
    using supervisor_sets_agent [OF user call, of q] by blast
  have "passState (graphStep env (Running PersonalAssistant s q w)) = s'"
    unfolding step by (simp split: option.splits Target.splits)
  then show ?thesis using cur r by simp
qed

lemma handlerState_user:
  "lastUserMessage (handlerState u) = Some \<lparr>role = User, content = u, agentName = None\<rparr>"
  by (simp add: handlerState_def lastUserMessage_def createInitialState_def)

text \<open>
  Claim C4, as the code has it. When the oracle answers and its text does not parse, the
  worker returns the input messages with one clarification reply appended and the input
  agent state with \<open>taskCompleted\<close> false; the queue is the one it was given. The worker
  is entered on the router's answer \<open>FeatureRequestAgent\<close>, so \<open>currentAgent\<close> still names
  the worker. The worker is not entered again on that: the next node of the pass is the
  supervisor, which sets \<open>currentAgent\<close> to the name its own oracle call gives, and the
  router then answers with that name; and a user turn starts at the supervisor on the
  initial state, where the router's answer is again the name the supervisor's oracle
  call gives.
\<close>

theorem feature_parse_failure:
  assumes call: "llm env w [(''system'', featureRequestPrompt),
            (''user'', joinWith [CHR 0x0A]
               (map content (filter (\<lambda>m. role m = User) (messages s))))]
          = (Some reply, w')"
    and parse: "parseFeatureRequest env (jsonText reply) = None"
    and entered: "router s = ''FeatureRequestAgent''"
  shows "featureRequestAgent env w q s =
           (\<lparr>messages = messages s @
               [\<lparr>role = Assistant, content = featureClarificationText,
                 agentName = Some ''FeatureRequestAgent''\<rparr>],
             agentState = (agentState s)\<lparr>taskCompleted := False\<rparr>\<rparr>, q, w') \<and>
         taskCompleted (agentState (fst (featureRequestAgent env w q s))) = False \<and>
         currentAgent (agentState (fst (featureRequestAgent env w q s))) = ''FeatureRequestAgent'' \<and>
         router (fst (featureRequestAgent env w q s)) = ''FeatureRequestAgent'' \<and>
         fst (snd (featureRequestAgent env w q s)) = q \<and>
         graphStep env (Running FeatureRequestAgent s q w) =
           Running PersonalAssistant
             \<lparr>messages = messages s @
               [\<lparr>role = Assistant, content = featureClarificationText,
                 agentName = Some ''FeatureRequestAgent''\<rparr>],
              agentState = (agentState s)\<lparr>taskCompleted := False\<rparr>\<rparr> q w' \<and>
         (lastUserMessage s = Some m \<and>
          llm env w' [(''system'', routerPrompt), (''user'', content m)] = (Some named, w2) \<longrightarrow>
            currentAgent (agentState (passState
              (graphSteps env 2 (Running FeatureRequestAgent s q w)))) = trim named \<and>
            router (passState (graphSteps env 2 (Running FeatureRequestAgent s q w))) = trim named) \<and>
         (llm env w3 [(''system'', routerPrompt), (''user'', u)] = (Some named', w4) \<longrightarrow>
            passNode (handlerPass u q3 w3) = Some PersonalAssistant \<and>
            router (passState (graphStep env (handlerPass u q3 w3))) = trim named')"
proof -
  let ?out = "\<lparr>messages = messages s @
               [\<lparr>role = Assistant, content = featureClarificationText,
                 agentName = Some ''FeatureRequestAgent''\<rparr>],
             agentState = (agentState s)\<lparr>taskCompleted := False\<rparr>\<rparr>"
  have out: "featureRequestAgent env w q s = (?out, q, w')"
    using call parse by (simp add: featureRequestAgent_def Let_def assistantMessage_def)
  have cur: "currentAgent (agentState s) = ''FeatureRequestAgent''"
    using entered by (auto simp: router_def split: if_splits)
  have returned: "taskCompleted (agentState (fst (featureRequestAgent env w q s))) = False \<and>
         currentAgent (agentState (fst (featureRequestAgent env w q s))) = ''FeatureRequestAgent'' \<and>
         router (fst (featureRequestAgent env w q s)) = ''FeatureRequestAgent'' \<and>
         fst (snd (featureRequestAgent env w q s)) = q"
    unfolding out using cur by (simp add: router_def)
  have merged: "mergeState s ?out = ?out"
    by (simp add: mergeState_def messagesReducer_def agentStateReducer_def)
  have step: "graphStep env (Running FeatureRequestAgent s q w) = Running PersonalAssistant ?out q w'"
    by (simp add: runNode_def out merged nextTarget_def Let_def)
  have two: "graphSteps env 2 (Running FeatureRequestAgent s q w) =
      graphStep env (Running PersonalAssistant ?out q w')"
    by (simp only: graphSteps_def numeral_2_eq_2 funpow.simps o_apply id_apply step)
  have again: "currentAgent (agentState (passState
              (graphSteps env 2 (Running FeatureRequestAgent s q w)))) = trim named \<and>
            router (passState (graphSteps env 2 (Running FeatureRequestAgent s q w))) = trim named"
    if user: "lastUserMessage s = Some m"
      and named: "llm env w' [(''system'', routerPrompt), (''user'', content m)] = (Some named, w2)"
  proof -
    have "lastUserMessage ?out = Some m"
      using user unfolding lastUserMessage_snoc_assistant .
    then show ?thesis
      unfolding two using supervisor_sets_router [OF _ named, of ?out q] by blast
  qed
  have turn: "passNode (handlerPass u q3 w3) = Some PersonalAssistant \<and>
            router (passState (graphStep env (handlerPass u q3 w3))) = trim named'"
    if named: "llm env w3 [(''system'', routerPrompt), (''user'', u)] = (Some named', w4)"
  proof -
    have "llm env w3 [(''system'', routerPrompt),
        (''user'', content \<lparr>role = User, content = u, agentName = None\<rparr>)] = (Some named', w4)"
      using named by simp
    then show ?thesis
      unfolding handlerPass_def
      using supervisor_sets_router [OF handlerState_user, of env w3 u named' w4 q3] by simp
  qed
  show ?thesis
    using out returned step again turn by blast
qed

theorem feature_parse_failure_witness:
  "llm (scriptedEnv darkModeReplies) 1 [(''system'', featureRequestPrompt),
      (''user'', joinWith [CHR 0x0A] (map content (filter (\<lambda>m. role m = User)
         (messages (routedState ''FeatureRequestAgent'' ''I wish the app had dark mode'')))))]
     = (Some ''Dark mode, I think?'', 2) \<and>
   parseFeatureRequest (scriptedEnv darkModeReplies) (jsonText ''Dark mode, I think?'') = None \<and>
   router (routedState ''FeatureRequestAgent'' ''I wish the app had dark mode'') =
     ''FeatureRequestAgent'' \<and>
   lastUserMessage (routedState ''FeatureRequestAgent'' ''I wish the app had dark mode'') =
     Some \<lparr>role = User, content = ''I wish the app had dark mode'', agentName = None\<rparr> \<and>
   llm (scriptedEnv darkModeReplies) 2 [(''system'', routerPrompt),
      (''user'', content \<lparr>role = User, content = ''I wish the app had dark mode'', agentName = None\<rparr>)]
     = (Some ''DeepResearchAgent'', 3) \<and>
   llm (scriptedEnv darkModeReplies) 3 [(''system'', routerPrompt), (''user'', ''Make it the default'')]
     = (Some ''PersonalAssistant'', 4) \<and>
   fst (snd (featureRequestAgent (scriptedEnv darkModeReplies) 1 []
      (routedState ''FeatureRequestAgent'' ''I wish the app had dark mode''))) = [] \<and>
   currentAgent (agentState (fst (featureRequestAgent (scriptedEnv darkModeReplies) 1 []
      (routedState ''FeatureRequestAgent'' ''I wish the app had dark mode'')))) =
     ''FeatureRequestAgent'' \<and>
   taskCompleted (agentState (fst (featureRequestAgent (scriptedEnv darkModeReplies) 1 []
      (routedState ''FeatureRequestAgent'' ''I wish the app had dark mode'')))) = False \<and>
   passNode (graphStep (scriptedEnv darkModeReplies) (Running FeatureRequestAgent
      (routedState ''FeatureRequestAgent'' ''I wish the app had dark mode'') [] 1)) =
     Some PersonalAssistant \<and>
   router (passState (graphSteps (scriptedEnv darkModeReplies) 2 (Running FeatureRequestAgent
      (routedState ''FeatureRequestAgent'' ''I wish the app had dark mode'') [] 1))) =
     trim ''DeepResearchAgent'' \<and>
   passNode (handlerPass ''Make it the default'' [] (3::nat)) = Some PersonalAssistant \<and>
   router (passState (graphStep (scriptedEnv darkModeReplies)
      (handlerPass ''Make it the default'' [] 3))) = trim ''PersonalAssistant''"
proof -
  let ?env = "scriptedEnv darkModeReplies"
  let ?s = "routedState ''FeatureRequestAgent'' ''I wish the app had dark mode''"
  let ?m = "\<lparr>role = User, content = ''I wish the app had dark mode'', agentName = None\<rparr>"
  have call: "llm ?env 1 [(''system'', featureRequestPrompt),
            (''user'', joinWith [CHR 0x0A]
               (map content (filter (\<lambda>m. role m = User) (messages ?s))))]
          = (Some ''Dark mode, I think?'', 2)"
    by (simp add: scriptedEnv_def darkModeReplies_def)
  have parse: "parseFeatureRequest ?env (jsonText ''Dark mode, I think?'') = None"
    by (simp add: scriptedEnv_def)
  have entered: "router ?s = ''FeatureRequestAgent''"
    by code_simp
  have user: "lastUserMessage ?s = Some ?m"
    by code_simp
  have named: "llm ?env 2 [(''system'', routerPrompt), (''user'', content ?m)] =
      (Some ''DeepResearchAgent'', 3)"
    by (simp add: scriptedEnv_def darkModeReplies_def)
  have named': "llm ?env 3 [(''system'', routerPrompt), (''user'', ''Make it the default'')] =
      (Some ''PersonalAssistant'', 4)"
    by (simp add: scriptedEnv_def darkModeReplies_def)
  note inst = feature_parse_failure [OF call parse entered, of "[]" ?m "''DeepResearchAgent''" 3
      3 "''Make it the default''" "''PersonalAssistant''" 4 "[]"]
  have r1: "fst (snd (featureRequestAgent ?env 1 [] ?s)) = [] \<and>
      currentAgent (agentState (fst (featureRequestAgent ?env 1 [] ?s))) = ''FeatureRequestAgent'' \<and>
      taskCompleted (agentState (fst (featureRequestAgent ?env 1 [] ?s))) = False"
    using inst by blast
  have r2: "graphStep ?env (Running FeatureRequestAgent ?s [] 1) =
      Running PersonalAssistant
        \<lparr>messages = messages ?s @
           [\<lparr>role = Assistant, content = featureClarificationText,
             agentName = Some ''FeatureRequestAgent''\<rparr>],
         agentState = (agentState ?s)\<lparr>taskCompleted := False\<rparr>\<rparr> [] 2"
    using inst by blast
  have r3: "router (passState (graphSteps ?env 2 (Running FeatureRequestAgent ?s [] 1))) =
      trim ''DeepResearchAgent''"
    using inst user named by blast
  have r4: "passNode (handlerPass ''Make it the default'' [] (3::nat)) = Some PersonalAssistant \<and>
      router (passState (graphStep ?env (handlerPass ''Make it the default'' [] 3))) =
        trim ''PersonalAssistant''"
    using inst named' by blast
  have r2': "passNode (graphStep ?env (Running FeatureRequestAgent ?s [] 1)) = Some PersonalAssistant"
    unfolding r2 by simp
  show ?thesis
    using call parse entered user named named' r1 r2' r3 r4 by blast
qed

text \<open>
  A pass in which the worker's parse fails: the oracle names the feature-capture worker,
  gives a text that does not parse, and on the supervisor's next call names the research
  worker. After the worker the pass is at the supervisor, not at the worker, and then at
  the research worker, with \<open>currentAgent\<close> naming it; the feature-capture worker is
  not entered again. The next user turn starts at the supervisor, whose oracle call
  names no worker, and ends there.
\<close>

theorem feature_retry_counterexample:
  "passNode (graphSteps (scriptedEnv darkModeReplies) 1
      (handlerPass ''I wish the app had dark mode'' [] 0)) = Some FeatureRequestAgent \<and>
   passNode (graphSteps (scriptedEnv darkModeReplies) 2
      (handlerPass ''I wish the app had dark mode'' [] 0)) = Some PersonalAssistant \<and>
   last (messages (passState (graphSteps (scriptedEnv darkModeReplies) 2
      (handlerPass ''I wish the app had dark mode'' [] 0)))) =
     \<lparr>role = Assistant, content = featureClarificationText,
      agentName = Some ''FeatureRequestAgent''\<rparr> \<and>
   currentAgent (agentState (passState (graphSteps (scriptedEnv darkModeReplies) 2
      (handlerPass ''I wish the app had dark mode'' [] 0)))) = ''FeatureRequestAgent'' \<and>
   passNode (graphSteps (scriptedEnv darkModeReplies) 3
      (handlerPass ''I wish the app had dark mode'' [] 0)) = Some DeepResearchAgent \<and>
   currentAgent (agentState (passState (graphSteps (scriptedEnv darkModeReplies) 3
      (handlerPass ''I wish the app had dark mode'' [] 0)))) = ''DeepResearchAgent'' \<and>
   passNode (handlerPass ''Make it the default'' [] (3::nat)) = Some PersonalAssistant \<and>
   passNode (graphStep (scriptedEnv darkModeReplies)
      (handlerPass ''Make it the default'' [] 3)) = None \<and>
   currentAgent (agentState (passState (graphStep (scriptedEnv darkModeReplies)
      (handlerPass ''Make it the default'' [] 3)))) = ''PersonalAssistant''"
  by code_simp

section \<open>Messages only grow\<close>

lemma personalAssistantAgent_appends:
  "\<exists>m. messages (fst (personalAssistantAgent env w s)) = messages s @ [m]"
  by (auto simp: personalAssistantAgent_def Let_def split: option.splits prod.splits)

lemma featureRequestAgent_appends:
  "\<exists>m. messages (fst (featureRequestAgent env w q s)) = messages s @ [m]"
  by (auto simp: featureRequestAgent_def Let_def split: option.splits prod.splits)

lemma deepResearchAgent_appends:
  "\<exists>m. messages (fst (deepResearchAgent env w s)) = messages s @ [m]"
  by (auto simp: deepResearchAgent_def deepResearchTry_def Let_def
      split: option.splits prod.splits)

lemma gmeRedditSummaryAgent_appends:
  "\<exists>m. messages (fst (gmeRedditSummaryAgent env w s)) = messages s @ [m]"
  by (auto simp: gmeRedditSummaryAgent_def gmeRedditTry_def Let_def
      split: option.splits prod.splits)

lemma runNode_appends:
  "\<exists>m. messages (fst (runNode env node w q s)) = messages s @ [m]"
proof (cases node)
  case PersonalAssistant
  then show ?thesis
    using personalAssistantAgent_appends [of env w s]
    by (auto simp: runNode_def split: prod.splits)
next
  case FeatureRequestAgent
  then show ?thesis
    using featureRequestAgent_appends [of env w q s] by (simp add: runNode_def)
next
  case DeepResearchAgent
  then show ?thesis
    using deepResearchAgent_appends [of env w s]
    by (auto simp: runNode_def split: prod.splits)
next
  case GmeRedditSummaryAgent
  then show ?thesis
    using gmeRedditSummaryAgent_appends [of env w s]
    by (auto simp: runNode_def split: prod.splits)
qed

lemma messagesReducer_extends: "prefix prev (messagesReducer prev new)"
  by (simp add: messagesReducer_def)

lemma messagesReducer_append: "messagesReducer prev (prev @ ms) = prev @ ms"
  by (simp add: messagesReducer_def)

lemma graphStep_extends:
  "prefix (messages (passState r)) (messages (passState (graphStep env r)))"
proof (cases r)
  case (Running node state q w)
  obtain out q' w' where run: "runNode env node w q state = (out, q', w')"
    by (cases "runNode env node w q state") auto
  have "messages (passState (graphStep env r)) = messagesReducer (messages state) (messages out)"
    using Running run
    by (auto simp: Let_def mergeState_def split: option.splits Target.splits)
  then show ?thesis using Running by (simp add: messagesReducer_extends)
qed simp_all

lemma graphSteps_extends:
  "prefix (messages (passState r)) (messages (passState (graphSteps env n r)))"
proof (induction n)
  case 0
  show ?case by (simp add: graphSteps_def)
next
  case (Suc n)
  have "prefix (messages (passState (graphSteps env n r)))
          (messages (passState (graphStep env (graphSteps env n r))))"
    by (rule graphStep_extends)
  with Suc show ?case
    by (auto simp: graphSteps_def intro: prefix_order.trans)
qed

text \<open>
  Claim C5. Every node, on every state and whatever the oracle does, returns the input
  messages with one message appended, and the channel keeps exactly that. Over any
  number of steps of a pass the messages at the start are a prefix of the messages
  reached, so their number never falls.
\<close>

theorem messages_append_only:
  "(\<exists>m. messages (fst (runNode env node w q s)) = messages s @ [m] \<and>
        messages (mergeState s (fst (runNode env node w q s))) = messages s @ [m]) \<and>
   prefix (messages (passState r)) (messages (passState (graphSteps env n r))) \<and>
   length (messages (passState r)) \<le> length (messages (passState (graphSteps env n r)))"
proof -
  obtain m where m: "messages (fst (runNode env node w q s)) = messages s @ [m]"
    using runNode_appends [of env node w q s] by blast
  then have "messages (mergeState s (fst (runNode env node w q s))) = messages s @ [m]"
    by (simp add: mergeState_def messagesReducer_append)
  with m have first: "\<exists>m. messages (fst (runNode env node w q s)) = messages s @ [m] \<and>
        messages (mergeState s (fst (runNode env node w q s))) = messages s @ [m]"
    by blast
  have ext: "prefix (messages (passState r)) (messages (passState (graphSteps env n r)))"
    by (rule graphSteps_extends)
  then have "length (messages (passState r)) \<le> length (messages (passState (graphSteps env n r)))"
    by (rule prefix_length_le)
  with first ext show ?thesis by blast
qed

theorem messages_append_only_witness:
  "2 \<le> length (messages (passState (graphSteps (fixedReplyEnv (Some ''DeepResearchAgent'')) 3
          (Running PersonalAssistant (handlerState ''What causes climate change?'') [] ())))) \<and>
   prefix (messages (handlerState ''What causes climate change?''))
     (messages (passState (graphSteps (fixedReplyEnv (Some ''DeepResearchAgent'')) 3
          (Running PersonalAssistant (handlerState ''What causes climate change?'') [] ()))))"
proof -
  have start: "length (messages (handlerState ''What causes climate change?'')) = 2"
    by (simp add: handlerState_def createInitialState_def)
  show ?thesis
    using start
      messages_append_only [of "fixedReplyEnv (Some ''DeepResearchAgent'')" PersonalAssistant "()" "[]"
        "handlerState ''What causes climate change?''"
        "Running PersonalAssistant (handlerState ''What causes climate change?'') [] ()" 3]
    by simp
qed

section \<open>The feature-request queue\<close>

lemma appendAll_eq: "appendAll rs q = q @ rs"
  unfolding appendAll_def by (induction rs arbitrary: q) (simp_all add: addFeatureRequest_def)

lemma mset_insertBy: "mset (insertBy cmp x xs) = add_mset x (mset xs)"
  by (induction xs) simp_all

lemma mset_sortBy: "mset (sortBy cmp xs) = mset xs"
  unfolding sortBy_def by (induction xs) (simp_all add: mset_insertBy)

lemma set_insertBy: "set (insertBy cmp x xs) = insert x (set xs)"
  by (induction xs) auto

lemma newestFirst_insertBy:
  "newestFirst xs \<Longrightarrow> newestFirst (insertBy byNewest x xs)"
  unfolding newestFirst_def
  by (induction xs) (auto simp: set_insertBy byNewest_def)

lemma newestFirst_sortBy: "newestFirst (sortBy byNewest xs)"
proof (induction xs)
  case Nil
  show ?case by (simp add: sortBy_def newestFirst_def)
next
  case (Cons x xs)
  then show ?case using newestFirst_insertBy [of "sortBy byNewest xs" x]
    by (simp add: sortBy_def)
qed

text \<open>Requests created at the same time keep their order of arrival.\<close>

lemma stable_insertBy:
  "filter (\<lambda>r. timestamp r = t) (insertBy byNewest x xs) =
   filter (\<lambda>r. timestamp r = t) (x # xs)"
  by (induction xs) (auto simp: byNewest_def)

lemma stable_sortBy:
  "filter (\<lambda>r. timestamp r = t) (sortBy byNewest xs) = filter (\<lambda>r. timestamp r = t) xs"
  unfolding sortBy_def by (induction xs) (simp_all add: stable_insertBy)

text \<open>
  Claim C6. After the requests \<open>rs\<close> are appended to the empty queue, \<open>getAllFeatureRequests\<close>
  returns \<open>rs\<close>. For \<open>k\<close> up to their number, \<open>getRecentFeatureRequests\<close> returns \<open>k\<close> of
  them, newest first, and none of the requests it leaves out is newer than one it returns.
\<close>

theorem queue_append_read:
  "getAllFeatureRequests (appendAll rs []) = rs \<and>
   (k \<le> length rs \<longrightarrow>
      (let out = getRecentFeatureRequests (Some (int k)) (appendAll rs [])
       in length out = k \<and> newestFirst out \<and> mset out \<subseteq># mset rs \<and>
          (\<forall>x \<in># mset out. \<forall>y \<in># mset rs - mset out. timestamp y \<le> timestamp x)))"
proof -
  let ?S = "sortBy byNewest rs"
  have all: "getAllFeatureRequests (appendAll rs []) = rs"
    by (simp add: getAllFeatureRequests_def appendAll_eq)
  have out: "getRecentFeatureRequests (Some (int k)) (appendAll rs []) = take k ?S"
    by (simp add: getRecentFeatureRequests_def slice0_def appendAll_eq)
  have len: "length ?S = length rs"
    using mset_sortBy [of byNewest rs] by (metis size_mset)
  have split: "mset rs = mset (take k ?S) + mset (drop k ?S)"
    by (metis append_take_drop_id mset_append mset_sortBy)
  have sorted: "sorted_wrt (\<lambda>a b. timestamp b \<le> timestamp a) (take k ?S @ drop k ?S)"
    using newestFirst_sortBy [of rs] by (simp only: append_take_drop_id newestFirst_def)
  have rest: "mset rs - mset (take k ?S) = mset (drop k ?S)"
    using split by simp
  have sub: "mset (take k ?S) \<subseteq># mset rs"
    using split by simp
  have parts: "sorted_wrt (\<lambda>a b. timestamp b \<le> timestamp a) (take k ?S) \<and>
      (\<forall>x \<in> set (take k ?S). \<forall>y \<in> set (drop k ?S). timestamp y \<le> timestamp x)"
    using sorted unfolding sorted_wrt_append by blast
  have nf: "newestFirst (take k ?S)"
    using parts by (simp add: newestFirst_def)
  have dom: "\<forall>x \<in># mset (take k ?S). \<forall>y \<in># mset rs - mset (take k ?S).
      timestamp y \<le> timestamp x"
    unfolding rest using parts by simp
  show ?thesis
    using all out len sub nf dom by (simp add: Let_def)
qed

theorem queue_append_read_witness:
  "(2::nat) \<le> length sampleRequests \<and>
   getAllFeatureRequests (appendAll sampleRequests []) = sampleRequests \<and>
   length (getRecentFeatureRequests (Some 2) (appendAll sampleRequests [])) = 2 \<and>
   newestFirst (getRecentFeatureRequests (Some 2) (appendAll sampleRequests [])) \<and>
   getRecentFeatureRequests (Some 2) (appendAll sampleRequests []) = [request ''b'' 9, request ''d'' 7]"
proof -
  have k: "(2::nat) \<le> length sampleRequests"
    by (simp add: sampleRequests_def)
  have val: "getRecentFeatureRequests (Some 2) (appendAll sampleRequests []) =
      [request ''b'' 9, request ''d'' 7]"
    by code_simp
  show ?thesis
    using k val queue_append_read [of sampleRequests 2] by (simp add: Let_def)
qed

section \<open>The research lookup\<close>

lemma knowledgeBase_nonempty: "knowledgeBase k = Some entries \<Longrightarrow> entries \<noteq> []"
  unfolding knowledgeBase_def by (auto split: if_splits)

lemma knowledgeSnippets_empty_iff:
  "knowledgeSnippets k = [] \<longleftrightarrow> knowledgeBase (toLowerCase k) = None"
proof (cases "knowledgeBase (toLowerCase k)")
  case None
  then show ?thesis by (simp add: knowledgeSnippets_def)
next
  case (Some entries)
  then show ?thesis using knowledgeBase_nonempty [OF Some] by (simp add: knowledgeSnippets_def)
qed

lemma concat_snippets_empty_iff:
  "concat (map knowledgeSnippets ks) = [] \<longleftrightarrow>
   (\<forall>k \<in> set ks. knowledgeBase (toLowerCase k) = None)"
  by (induction ks) (simp_all add: knowledgeSnippets_empty_iff)

lemma externalPair_nonempty: "externalPair k \<noteq> []"
  by (simp add: externalPair_def)

text \<open>
  Claim C8, as the code has it. When no keyword is extracted from the query the lookup
  returns the generic pair. When keywords are extracted and none is a key of the
  knowledge base it returns the pair of external-source snippets that name the first
  keyword. When some keyword is a key of the knowledge base it returns the snippets of
  the matching keywords, in keyword order, and at least one.
\<close>

theorem research_lookup_cases:
  "(extractKeywords q = [] \<longrightarrow> performResearch q = genericPair) \<and>
   (extractKeywords q \<noteq> [] \<and>
    (\<forall>k \<in> set (extractKeywords q). knowledgeBase (toLowerCase k) = None) \<longrightarrow>
      performResearch q = externalPair (hd (extractKeywords q))) \<and>
   ((\<exists>k \<in> set (extractKeywords q). knowledgeBase (toLowerCase k) \<noteq> None) \<longrightarrow>
      performResearch q = concat (map knowledgeSnippets (extractKeywords q)) \<and>
      performResearch q \<noteq> [])"
proof -
  let ?ks = "extractKeywords q"
  let ?r1 = "concat (map knowledgeSnippets ?ks)"
  have none: "?ks = [] \<Longrightarrow> performResearch q = genericPair"
    by (simp add: performResearch_def Let_def)
  have ext: "?ks \<noteq> [] \<Longrightarrow> ?r1 = [] \<Longrightarrow> performResearch q = externalPair (hd ?ks)"
    by (simp add: performResearch_def Let_def externalPair_nonempty)
  have kb: "?r1 \<noteq> [] \<Longrightarrow> performResearch q = ?r1"
    by (auto simp: performResearch_def Let_def)
  have c1: "?ks = [] \<longrightarrow> performResearch q = genericPair"
    using none by simp
  have c2: "?ks \<noteq> [] \<and> (\<forall>k \<in> set ?ks. knowledgeBase (toLowerCase k) = None) \<longrightarrow>
      performResearch q = externalPair (hd ?ks)"
    using ext concat_snippets_empty_iff [of ?ks] by simp
  have c3: "(\<exists>k \<in> set ?ks. knowledgeBase (toLowerCase k) \<noteq> None) \<longrightarrow>
      performResearch q = ?r1 \<and> performResearch q \<noteq> []"
  proof
    assume "\<exists>k \<in> set ?ks. knowledgeBase (toLowerCase k) \<noteq> None"
    then have "?r1 \<noteq> []"
      unfolding concat_snippets_empty_iff by simp
    then show "performResearch q = ?r1 \<and> performResearch q \<noteq> []"
      using kb by simp
  qed
  from c1 c2 c3 show ?thesis by (intro conjI)
qed

theorem research_lookup_cases_witness:
  "performResearch ''what is it'' = genericPair \<and>
   performResearch ''Tell me about dogs, dogs and 2024 cats 100 cats dogs'' = externalPair ''dogs'' \<and>
   performResearch ''What causes climate change?'' = knowledgeSnippets ''climate change'' \<and>
   includesStr (knowledgeSnippets ''climate change'' ! 1) ''greenhouse''"
proof -
  have k1: "extractKeywords ''what is it'' = []"
    by code_simp
  have k2: "extractKeywords ''Tell me about dogs, dogs and 2024 cats 100 cats dogs'' =
      [''dogs'', ''cats'', ''100'']"
    by code_simp
  have n2: "knowledgeBase (toLowerCase ''dogs'') = None \<and> knowledgeBase (toLowerCase ''cats'') = None \<and>
      knowledgeBase (toLowerCase ''100'') = None"
    by code_simp
  have k3: "extractKeywords ''What causes climate change?'' = [''climate change'']"
    by code_simp
  have n3: "knowledgeBase (toLowerCase ''climate change'') \<noteq> None"
    by code_simp
  have g: "includesStr (knowledgeSnippets ''climate change'' ! 1) ''greenhouse''"
    by code_simp
  show ?thesis
    using research_lookup_cases [of "''what is it''"]
      research_lookup_cases [of "''Tell me about dogs, dogs and 2024 cats 100 cats dogs''"]
      research_lookup_cases [of "''What causes climate change?''"]
      k1 k2 n2 k3 n3 g
    by simp
qed

text \<open>
  The query \<open>quantum computing\<close>: its one keyword is no key of the knowledge base, and the
  lookup returns the external pair, not the generic one.
\<close>

theorem research_unmatched_counterexample:
  "extractKeywords ''quantum computing'' = [''quantum computing''] \<and>
   knowledgeBase (toLowerCase ''quantum computing'') = None \<and>
   performResearch ''quantum computing'' = externalPair ''quantum computing'' \<and>
   performResearch ''quantum computing'' \<noteq> genericPair"
  by code_simp

section \<open>The lookup read off the query\<close>

text \<open>
  \<open>includesStr\<close> is the substring test. A word of a split is free of white space and
  is a substring of the text that was split.
\<close>

lemma includesStr_iff: "includesStr s p \<longleftrightarrow> (\<exists>ps ss. s = ps @ p @ ss)"
proof (induction s)
  case Nil
  show ?case by auto
next
  case (Cons c cs)
  show ?case
  proof
    assume "includesStr (c # cs) p"
    then consider "prefix p (c # cs)" | "includesStr cs p" by auto
    then show "\<exists>ps ss. c # cs = ps @ p @ ss"
    proof cases
      case 1
      then obtain ss where "c # cs = p @ ss" by (auto simp: prefix_def)
      then have "c # cs = [] @ p @ ss" by simp
      then show ?thesis by blast
    next
      case 2
      then obtain ps ss where "cs = ps @ p @ ss" using Cons.IH by blast
      then have "c # cs = (c # ps) @ p @ ss" by simp
      then show ?thesis by blast
    qed
  next
    assume "\<exists>ps ss. c # cs = ps @ p @ ss"
    then obtain ps ss where eq: "c # cs = ps @ p @ ss" by blast
    show "includesStr (c # cs) p"
    proof (cases ps)
      case Nil
      then have "prefix p (c # cs)" using eq by (simp add: prefix_def)
      then show ?thesis by simp
    next
      case (Cons a ps')
      then have "cs = ps' @ p @ ss" using eq by simp
      then have "includesStr cs p" using Cons.IH by blast
      then show ?thesis by simp
    qed
  qed
qed

lemma splitWs_space_head:
  "isSpace c \<Longrightarrow> \<exists>ws. splitWs (c # cs) = [] # ws"
proof (induction cs arbitrary: c)
  case Nil
  then show ?case by simp
next
  case (Cons d ds)
  then show ?case by (cases "isSpace d") auto
qed

lemma splitWs_head_prefix: "\<exists>w ws. splitWs s = w # ws \<and> prefix w s"
proof (induction s)
  case Nil
  show ?case by simp
next
  case (Cons c cs)
  show ?case
  proof (cases "isSpace c")
    case True
    then show ?thesis using splitWs_space_head [of c cs] by auto
  next
    case False
    then show ?thesis using Cons.IH by auto
  qed
qed

lemma splitWs_words:
  "w \<in> set (splitWs s) \<Longrightarrow> (\<forall>c \<in> set w. \<not> isSpace c) \<and> (\<exists>ps ss. s = ps @ w @ ss)"
proof (induction s arbitrary: w)
  case Nil
  then show ?case by simp
next
  case (Cons c cs)
  obtain w0 ws where split: "splitWs cs = w0 # ws" and pre: "prefix w0 cs"
    using splitWs_head_prefix [of cs] by blast
  show ?case
  proof (cases "isSpace c")
    case True
    then have "w = [] \<or> w \<in> set (splitWs cs)"
      using Cons.prems by (auto split: if_splits)
    then show ?thesis
    proof
      assume "w = []"
      then have "(\<forall>c \<in> set w. \<not> isSpace c) \<and> c # cs = [] @ w @ (c # cs)" by simp
      then show ?thesis by blast
    next
      assume "w \<in> set (splitWs cs)"
      then obtain ps ss where "(\<forall>c \<in> set w. \<not> isSpace c)" and "cs = ps @ w @ ss"
        using Cons.IH by blast
      then have "(\<forall>c \<in> set w. \<not> isSpace c) \<and> c # cs = (c # ps) @ w @ ss" by simp
      then show ?thesis by blast
    qed
  next
    case False
    then have "w = c # w0 \<or> w \<in> set ws"
      using Cons.prems split by auto
    then show ?thesis
    proof
      assume w: "w = c # w0"
      have "w0 \<in> set (splitWs cs)" using split by simp
      then have nosp: "\<forall>c \<in> set w0. \<not> isSpace c" using Cons.IH by blast
      obtain ss where "cs = w0 @ ss" using pre by (auto simp: prefix_def)
      then have "c # cs = [] @ w @ ss" using w by simp
      then show ?thesis using nosp False w by auto
    next
      assume "w \<in> set ws"
      then have "w \<in> set (splitWs cs)" using split by simp
      then obtain ps ss where "(\<forall>c \<in> set w. \<not> isSpace c)" and "cs = ps @ w @ ss"
        using Cons.IH by blast
      then have "(\<forall>c \<in> set w. \<not> isSpace c) \<and> c # cs = (c # ps) @ w @ ss" by simp
      then show ?thesis by blast
    qed
  qed
qed

lemma lower_not_upper: "set lowerChars \<inter> set upperChars = {}"
  by (simp add: upperChars_def lowerChars_def)

lemma toLowerChar_fixed: "c \<notin> set upperChars \<Longrightarrow> toLowerChar c = c"
proof -
  assume "c \<notin> set upperChars"
  then have "map_of (zip upperChars lowerChars) c = None"
    by (simp add: map_of_eq_None_iff upperChars_def lowerChars_def)
  then show ?thesis by (simp add: toLowerChar_def)
qed

lemma toLowerChar_range: "toLowerChar c \<notin> set upperChars"
proof (cases "map_of (zip upperChars lowerChars) c")
  case None
  have len: "length upperChars = length lowerChars"
    by (simp add: upperChars_def lowerChars_def)
  have "c \<notin> set upperChars"
    using None len by (metis map_of_zip_is_None)
  then show ?thesis using None by (simp add: toLowerChar_def)
next
  case (Some l)
  then have "l \<in> set lowerChars"
    by (meson in_set_zipE map_of_SomeD)
  then show ?thesis using Some lower_not_upper by (auto simp: toLowerChar_def)
qed

lemma toLowerChar_idem: "toLowerChar (toLowerChar c) = toLowerChar c"
  using toLowerChar_fixed [OF toLowerChar_range] .


lemma cleanQuestion_lower: "c \<in> set (cleanQuestion q) \<Longrightarrow> toLowerChar c = c"
  by (auto simp: cleanQuestion_def toLowerCase_def toLowerChar_idem)

lemma word_lower:
  assumes "w \<in> set (splitWs (cleanQuestion q))"
  shows "toLowerCase w = w"
proof -
  obtain ps ss where "cleanQuestion q = ps @ w @ ss"
    using splitWs_words [OF assms] by blast
  then have "set w \<subseteq> set (cleanQuestion q)" by auto
  then have "\<forall>c \<in> set w. toLowerChar c = c"
    using cleanQuestion_lower by blast
  then show ?thesis
    unfolding toLowerCase_def by (simp add: map_idI)
qed

text \<open>The engine's sort gives the elements it was given.\<close>

lemma mset_binaryInsert: "mset (binaryInsert cmp ys pivot) = add_mset pivot (mset ys)"
proof -
  have "mset (take n ys @ [pivot] @ drop n ys) = add_mset pivot (mset (take n ys @ drop n ys))" for n
    by (simp del: append_take_drop_id)
  then show ?thesis
    by (simp only: binaryInsert_def Let_def append_take_drop_id)
qed

lemma mset_foldl_binaryInsert: "mset (foldl (binaryInsert cmp) ys xs) = mset ys + mset xs"
  by (induction xs arbitrary: ys) (simp_all add: mset_binaryInsert)

lemma mset_engineSort: "mset (engineSort cmp xs) = mset xs"
proof (cases "(cmp, xs)" rule: engineSort.cases)
  case (3 c x0 x1 ys)
  define n where "n = 2 + runLength cmp (cmp x1 x0 < 0) x1 ys"
  have "mset (engineSort cmp (x0 # x1 # ys)) =
      mset (take n (x0 # x1 # ys)) + mset (drop n (x0 # x1 # ys))"
    by (simp add: Let_def n_def mset_foldl_binaryInsert del: take_Suc_Cons drop_Suc_Cons)
  also have "\<dots> = mset (take n (x0 # x1 # ys) @ drop n (x0 # x1 # ys))"
    by (simp only: mset_append)
  finally show ?thesis
    using 3 by (simp only: append_take_drop_id prod.inject)
qed simp_all

lemma set_engineSort: "set (engineSort cmp xs) = set xs"
  using mset_engineSort [of cmp xs] by (metis set_mset_mset)

lemma objectEntries_keys: "fst ` set (objectEntries ws) \<subseteq> set ws"
  by (auto simp: objectEntries_def Let_def firstOccurrences_def)

lemma frequency_keywords_words:
  "set (map fst (take 3 (engineSort byFrequency (objectEntries ws)))) \<subseteq> set ws"
proof -
  have "set (take 3 (engineSort byFrequency (objectEntries ws))) \<subseteq> set (objectEntries ws)"
    using set_take_subset [of 3 "engineSort byFrequency (objectEntries ws)"]
    by (simp add: set_engineSort)
  then show ?thesis using objectEntries_keys [of ws] by auto
qed

lemma knowledgeBase_keys:
  "knowledgeBase k \<noteq> None \<Longrightarrow> k = ''blockchain'' \<or> k = ''machine learning'' \<or> k = ''climate change''"
  unfolding knowledgeBase_def by (simp split: if_splits)

lemma space_isSpace: "isSpace (CHR '' '')"
  by (simp add: isSpace_def)

lemma blockchain_important: "''blockchain'' \<in> set importantPhrases"
  by (simp add: importantPhrases_def)

text \<open>
  The keywords counted by frequency are single words of the cleaned query, and no such
  word is a key of the knowledge base unless the query holds an important phrase.
\<close>

lemma frequency_keywords_unmatched:
  assumes none: "find (\<lambda>phrase. includesStr (cleanQuestion q) phrase) importantPhrases = None"
    and k: "k \<in> set (extractKeywords q)"
  shows "knowledgeBase (toLowerCase k) = None"
proof (rule ccontr)
  assume kb: "knowledgeBase (toLowerCase k) \<noteq> None"
  let ?cleaned = "cleanQuestion q"
  let ?ws = "filter (\<lambda>word. word \<notin> set stopWords \<and> length word > 2) (splitWs ?cleaned)"
  have "extractKeywords q = map fst (take 3 (engineSort byFrequency (objectEntries ?ws)))"
    using none by (simp add: extractKeywords_def Let_def)
  then have "k \<in> set ?ws"
    using k frequency_keywords_words [of ?ws] by auto
  then have word: "k \<in> set (splitWs ?cleaned)" by simp
  have low: "toLowerCase k = k" using word_lower [OF word] .
  have nosp: "\<forall>c \<in> set k. \<not> isSpace c" and sub: "\<exists>ps ss. ?cleaned = ps @ k @ ss"
    using splitWs_words [OF word] by blast+
  have "k = ''blockchain'' \<or> k = ''machine learning'' \<or> k = ''climate change''"
    using knowledgeBase_keys [OF kb] low by simp
  moreover have "k \<noteq> ''machine learning''"
  proof
    assume "k = ''machine learning''"
    then have "CHR '' '' \<in> set k" by simp
    then show False using nosp space_isSpace by blast
  qed
  moreover have "k \<noteq> ''climate change''"
  proof
    assume "k = ''climate change''"
    then have "CHR '' '' \<in> set k" by simp
    then show False using nosp space_isSpace by blast
  qed
  ultimately have "k = ''blockchain''" by blast
  then have "includesStr ?cleaned ''blockchain''"
    using sub includesStr_iff by blast
  then have "find (\<lambda>phrase. includesStr ?cleaned phrase) importantPhrases \<noteq> None"
    unfolding find_None_iff using blockchain_important by blast
  then show False using none by simp
qed


lemma importantPhrases_lower: "p \<in> set importantPhrases \<Longrightarrow> toLowerCase p = p"
  by (auto simp: importantPhrases_def toLowerCase_def toLowerChar_def upperChars_def lowerChars_def)

text \<open>
  The lookup by the query itself: with an important phrase in the cleaned query, the
  first one decides; without one, the answer is never from the knowledge base.
\<close>

lemma research_by_phrase:
  "performResearch q =
     (case find (\<lambda>phrase. includesStr (cleanQuestion q) phrase) importantPhrases of
        Some phrase \<Rightarrow>
          (if knowledgeBase phrase = None then externalPair phrase else knowledgeSnippets phrase)
      | None \<Rightarrow>
          (if extractKeywords q = [] then genericPair else externalPair (hd (extractKeywords q))))"
proof (cases "find (\<lambda>phrase. includesStr (cleanQuestion q) phrase) importantPhrases")
  case None
  have "\<forall>k \<in> set (extractKeywords q). knowledgeBase (toLowerCase k) = None"
    using frequency_keywords_unmatched [OF None] by blast
  then have empty: "concat (map knowledgeSnippets (extractKeywords q)) = []"
    unfolding concat_snippets_empty_iff .
  show ?thesis
    unfolding None using empty
    by (simp add: performResearch_def Let_def externalPair_nonempty)
next
  case (Some p)
  then have "p \<in> set importantPhrases"
    by (auto simp: find_Some_iff)
  then have low: "toLowerCase p = p" by (rule importantPhrases_lower)
  have ks: "extractKeywords q = [p]"
    using Some by (simp add: extractKeywords_def Let_def)
  have snip: "knowledgeSnippets p = [] \<longleftrightarrow> knowledgeBase p = None"
    using knowledgeSnippets_empty_iff [of p] low by simp
  show ?thesis
    unfolding Some using ks snip
    by (simp add: performResearch_def Let_def externalPair_nonempty)
qed

section \<open>The catch branch of the two-call workers\<close>

text \<open>
  Claim C9. When the body of the \<open>try\<close> throws, in the research worker and in the
  social-summary worker, the agent state returned is the input agent state with
  \<open>taskCompleted\<close> false: \<open>currentAgent\<close>, the feature requests and both artifacts are the
  input's, and a worker entered on the router's answer is still the current agent.
\<close>

theorem worker_catch_frame:
  "(fst (deepResearchTry env w s) = None \<longrightarrow>
      agentState (fst (deepResearchAgent env w s)) = (agentState s)\<lparr>taskCompleted := False\<rparr> \<and>
      currentAgent (agentState (fst (deepResearchAgent env w s))) = currentAgent (agentState s) \<and>
      researchResults (agentState (fst (deepResearchAgent env w s))) = researchResults (agentState s) \<and>
      redditSummary (agentState (fst (deepResearchAgent env w s))) = redditSummary (agentState s) \<and>
      (router s = ''DeepResearchAgent'' \<longrightarrow>
         currentAgent (agentState (fst (deepResearchAgent env w s))) = ''DeepResearchAgent'')) \<and>
   (fst (gmeRedditTry env w s) = None \<longrightarrow>
      agentState (fst (gmeRedditSummaryAgent env w s)) = (agentState s)\<lparr>taskCompleted := False\<rparr> \<and>
      currentAgent (agentState (fst (gmeRedditSummaryAgent env w s))) = currentAgent (agentState s) \<and>
      researchResults (agentState (fst (gmeRedditSummaryAgent env w s))) = researchResults (agentState s) \<and>
      redditSummary (agentState (fst (gmeRedditSummaryAgent env w s))) = redditSummary (agentState s) \<and>
      (router s = ''GmeRedditSummaryAgent'' \<longrightarrow>
         currentAgent (agentState (fst (gmeRedditSummaryAgent env w s))) = ''GmeRedditSummaryAgent''))"
proof -
  have deep: "fst (deepResearchTry env w s) = None \<Longrightarrow>
      agentState (fst (deepResearchAgent env w s)) = (agentState s)\<lparr>taskCompleted := False\<rparr>"
    by (auto simp: deepResearchAgent_def split: prod.splits option.splits)
  have gme: "fst (gmeRedditTry env w s) = None \<Longrightarrow>
      agentState (fst (gmeRedditSummaryAgent env w s)) = (agentState s)\<lparr>taskCompleted := False\<rparr>"
    by (auto simp: gmeRedditSummaryAgent_def split: prod.splits option.splits)
  have cur: "\<And>name. router s = name \<Longrightarrow> name \<noteq> ''PersonalAssistant'' \<Longrightarrow>
      currentAgent (agentState s) = name"
    by (auto simp: router_def split: if_splits)
  show ?thesis
    using deep gme cur [of "''DeepResearchAgent''"] cur [of "''GmeRedditSummaryAgent''"]
    by simp
qed

theorem worker_catch_frame_witness:
  "fst (deepResearchTry (fixedReplyEnv None) () (routedState ''DeepResearchAgent'' ''Why?'')) = None \<and>
   currentAgent (agentState (fst (deepResearchAgent (fixedReplyEnv None) ()
      (routedState ''DeepResearchAgent'' ''Why?'')))) = ''DeepResearchAgent'' \<and>
   researchResults (agentState (fst (deepResearchAgent (fixedReplyEnv None) ()
      (routedState ''DeepResearchAgent'' ''Why?'')))) = None \<and>
   fst (gmeRedditTry (fixedReplyEnv (Some ''{}'')) ()
      (routedState ''GmeRedditSummaryAgent'' ''GME?'')) = None \<and>
   currentAgent (agentState (fst (gmeRedditSummaryAgent (fixedReplyEnv (Some ''{}'')) ()
      (routedState ''GmeRedditSummaryAgent'' ''GME?'')))) = ''GmeRedditSummaryAgent'' \<and>
   redditSummary (agentState (fst (gmeRedditSummaryAgent (fixedReplyEnv (Some ''{}'')) ()
      (routedState ''GmeRedditSummaryAgent'' ''GME?'')))) = None"
proof -
  have t1: "fst (deepResearchTry (fixedReplyEnv None) () (routedState ''DeepResearchAgent'' ''Why?'')) = None"
    by (simp add: deepResearchTry_def fixedReplyEnv_def)
  have t2: "fst (gmeRedditTry (fixedReplyEnv (Some ''{}'')) ()
      (routedState ''GmeRedditSummaryAgent'' ''GME?'')) = None"
    by (simp add: gmeRedditTry_def fixedReplyEnv_def)
  have r1: "router (routedState ''DeepResearchAgent'' ''Why?'') = ''DeepResearchAgent''"
    by code_simp
  have r2: "router (routedState ''GmeRedditSummaryAgent'' ''GME?'') = ''GmeRedditSummaryAgent''"
    by code_simp
  have a1: "researchResults (agentState (routedState ''DeepResearchAgent'' ''Why?'')) = None"
    by code_simp
  have a2: "redditSummary (agentState (routedState ''GmeRedditSummaryAgent'' ''GME?'')) = None"
    by code_simp
  have d: "currentAgent (agentState (fst (deepResearchAgent (fixedReplyEnv None) ()
        (routedState ''DeepResearchAgent'' ''Why?'')))) = ''DeepResearchAgent'' \<and>
      researchResults (agentState (fst (deepResearchAgent (fixedReplyEnv None) ()
        (routedState ''DeepResearchAgent'' ''Why?'')))) =
      researchResults (agentState (routedState ''DeepResearchAgent'' ''Why?''))"
    using t1 r1
      worker_catch_frame [of "fixedReplyEnv None" "()" "routedState ''DeepResearchAgent'' ''Why?''"]
    by blast
  have g: "currentAgent (agentState (fst (gmeRedditSummaryAgent (fixedReplyEnv (Some ''{}'')) ()
        (routedState ''GmeRedditSummaryAgent'' ''GME?'')))) = ''GmeRedditSummaryAgent'' \<and>
      redditSummary (agentState (fst (gmeRedditSummaryAgent (fixedReplyEnv (Some ''{}'')) ()
        (routedState ''GmeRedditSummaryAgent'' ''GME?'')))) =
      redditSummary (agentState (routedState ''GmeRedditSummaryAgent'' ''GME?''))"
    using t2 r2
      worker_catch_frame [of "fixedReplyEnv (Some ''{}'')" "()"
        "routedState ''GmeRedditSummaryAgent'' ''GME?''"]
    by blast
  show ?thesis
    using t1 t2 d g a1 a2 by (simp only: simp_thms)
qed

section \<open>The social-feed fetch and its time frame\<close>

lemma mockPosts_clock:
  "map (\<lambda>p. p\<lparr>created_utc := 0\<rparr>) (mockPosts clock1) =
   map (\<lambda>p. p\<lparr>created_utc := 0\<rparr>) (mockPosts clock2)"
  by (simp add: mockPosts_def)

lemma postSubreddit_clock: "postSubreddit (p\<lparr>created_utc := t\<rparr>) = postSubreddit p"
  by (simp add: postSubreddit_def)

lemma getMockRedditPosts_clock:
  "map (\<lambda>p. p\<lparr>created_utc := 0\<rparr>) (getMockRedditPosts clock1 subs) =
   map (\<lambda>p. p\<lparr>created_utc := 0\<rparr>) (getMockRedditPosts clock2 subs)"
proof -
  let ?keep = "\<lambda>post. case postSubreddit post of
                         Some sub \<Rightarrow> sub \<in> set (map toLowerCase subs) | None \<Rightarrow> False"
  have "map (\<lambda>p. p\<lparr>created_utc := 0\<rparr>) (filter ?keep (mockPosts clock)) =
        filter ?keep (map (\<lambda>p. p\<lparr>created_utc := 0\<rparr>) (mockPosts clock))" for clock
    by (simp add: filter_map comp_def postSubreddit_clock)
  then show ?thesis
    using mockPosts_clock [of clock1 clock2] by (simp add: getMockRedditPosts_def)
qed

text \<open>
  Claim C10. \<open>fetchRedditPosts\<close> never reads its time frame: with the same subreddits
  and the same clock readings, any two time frames (given or left to the default) get
  the same posts, and with different clock readings the posts differ in \<open>created_utc\<close>
  at most.
\<close>

theorem fetch_ignores_timeFrame:
  "fetchRedditPosts clock subs frame1 = fetchRedditPosts clock subs frame2 \<and>
   map (\<lambda>p. p\<lparr>created_utc := 0\<rparr>) (fetchRedditPosts clock1 subs frame1) =
   map (\<lambda>p. p\<lparr>created_utc := 0\<rparr>) (fetchRedditPosts clock2 subs frame2)"
  using getMockRedditPosts_clock by (simp add: fetchRedditPosts_def)

theorem fetch_ignores_timeFrame_witness:
  "fetchRedditPosts (\<lambda>k. 0) (Some [''superSTONK'']) (Some ''week'') =
     fetchRedditPosts (\<lambda>k. 0) (Some [''superSTONK'']) None \<and>
   map post_title (fetchRedditPosts (\<lambda>k. 0) (Some [''superSTONK'']) (Some ''week'')) =
     [''DD: GME'' @ [CHR 0x27] @ ''s NFT Marketplace Strategy and Future Revenue Projections'',
      ''GameStop Announces New Partnership with Major Game Publisher'']"
proof -
  have titles: "map post_title (fetchRedditPosts (\<lambda>k. 0) (Some [''superSTONK'']) (Some ''week'')) =
     [''DD: GME'' @ [CHR 0x27] @ ''s NFT Marketplace Strategy and Future Revenue Projections'',
      ''GameStop Announces New Partnership with Major Game Publisher'']"
    by code_simp
  show ?thesis
    using titles
      fetch_ignores_timeFrame [of "\<lambda>k. 0" "Some [''superSTONK'']" "Some ''week''" None]
    by simp
qed

end
